theory Spec2Isabelle
  imports Main
begin

unbundle bit_operations_syntax

section \<open>The AutoHome Mosquitto authorization plugin (auth-plugin.c)\<close>

text \<open>
  The plugin answers two questions for the broker: is this password right for this
  username (\<open>mosquitto_auth_unpwd_check\<close>), and may this client use this topic
  (\<open>mosquitto_auth_acl_check\<close>). Credentials live in an SQLite database whose tables the
  plugin creates on start-up (\<open>create_table\<close>, \<open>mosquitto_auth_plugin_init\<close>).

  The embedding follows the C source function by function. A \<open>const char*\<close> argument
  that may be \<open>NULL\<close> is a \<open>cstring option\<close>; a \<open>cstring\<close> is the sequence of characters
  of a NUL-terminated string before its terminator, so \<open>strlen\<close> is the length of the
  list. The client id, the username, the password, the topic and the values of the
  configuration options reach the plugin as such strings. Text stored in the database
  is different: it is whatever was stored, a NUL included, and the plugin reads it with
  \<open>strncpy\<close>, which stops at the first NUL. Undefined behaviour of the C program
  (reading through a null pointer, reading a buffer that was never written) is a value
  of type \<open>fault\<close>. Calls of
  \<open>mosquitto_log_printf\<close> in the two check functions only write to the broker's log and
  are left out there; the initialisation routine keeps its log, because that is where it
  reports what it found.
\<close>

subsection \<open>C strings\<close>

type_synonym cstring = string

definition strlen :: "cstring \<Rightarrow> nat" where
  "strlen s = length s"

text \<open>
  \<open>strcmp\<close> compares character by character as \<open>unsigned char\<close>; the C standard fixes
  only the sign of a non-zero result, and the plugin only ever compares the result with 0.
\<close>

fun strcmp :: "cstring \<Rightarrow> cstring \<Rightarrow> int" where
  "strcmp [] [] = 0"
| "strcmp [] (y # ys) = -1"
| "strcmp (x # xs) [] = 1"
| "strcmp (x # xs) (y # ys) =
     (if x = y then strcmp xs ys
      else if (of_char x :: nat) < of_char y then -1 else 1)"

text \<open>
  The C string that starts at the first character of a text: its characters up to the
  first NUL, or all of them if there is none (the text is followed by a terminator).
\<close>

definition c_string :: "string \<Rightarrow> cstring" where
  "c_string text = takeWhile (\<lambda>c. c \<noteq> CHR 0x00) text"

text \<open>
  \<open>strncpy(dst, src, n); dst[n - 1] = 0;\<close> where \<open>src\<close> points to a text: \<open>strncpy\<close>
  copies up to the first NUL of the text and at most \<open>n\<close> characters, and fills the
  rest with NUL; with the terminator written at \<open>n - 1\<close> the string left in \<open>dst\<close> is
  made of the first \<open>n - 1\<close> characters of the C string of the text.
\<close>

definition strncpy_terminated :: "string \<Rightarrow> nat \<Rightarrow> cstring" where
  "strncpy_terminated src n = take (n - 1) (c_string src)"

datatype fault = NULL_DEREFERENCE | UNINITIALISED_READ | UNTERMINATED_STRING

subsection \<open>Return codes\<close>

text \<open>
  Modelled from the spec: the outcomes of the two checks, under the names they have in
  \<open>mosquitto.h\<close> (a header of the broker, not among the sources).
  \<open>MOSQ_ERR_SUCCESS\<close> grants, \<open>MOSQ_ERR_AUTH\<close> and \<open>MOSQ_ERR_ACL_DENIED\<close> deny,
  \<open>MOSQ_ERR_UNKNOWN\<close> reports an application error.
\<close>

datatype mosq_err = MOSQ_ERR_SUCCESS | MOSQ_ERR_AUTH | MOSQ_ERR_ACL_DENIED | MOSQ_ERR_UNKNOWN

text \<open>The plugin's own \<open>enum return_codes\<close>.\<close>

definition SUCCESS :: int where "SUCCESS = 0"
definition FAILED_SQLITE :: int where "FAILED_SQLITE = 1"
definition NO_DB_FILE_SPECIFIED :: int where "NO_DB_FILE_SPECIFIED = 2"
definition DB_FILE_CANTOPEN :: int where "DB_FILE_CANTOPEN = 3"
definition DB_FILE_CANTCLOSE :: int where "DB_FILE_CANTCLOSE = 4"
definition DB_ERROR :: int where "DB_ERROR = 5"
definition NOTREQUIRED :: int where "NOTREQUIRED = 102"

subsection \<open>The SQLite library\<close>

text \<open>
  Modelled from the spec: the relational credential store. It is SQLite, which the
  plugin reaches through \<open>sqlite3.h\<close> and which is not among the sources. This is a
  model of the calls the plugin makes, after the documentation of the C interface.

  Result codes are C integers. \<open>SQLITE_OK\<close>, \<open>SQLITE_ROW\<close> and \<open>SQLITE_DONE\<close> are the
  three codes that are not errors; \<open>sqlite_fault\<close> lists error conditions with their
  primary result codes.
\<close>

definition SQLITE_OK :: int where "SQLITE_OK = 0"
definition SQLITE_ROW :: int where "SQLITE_ROW = 100"
definition SQLITE_DONE :: int where "SQLITE_DONE = 101"

datatype sqlite_fault =
  SQLITE_ERROR | SQLITE_BUSY | SQLITE_LOCKED | SQLITE_NOMEM | SQLITE_IOERR
  | SQLITE_CORRUPT | SQLITE_FULL | SQLITE_CANTOPEN | SQLITE_MISUSE

fun errcode :: "sqlite_fault \<Rightarrow> int" where
  "errcode SQLITE_ERROR = 1"
| "errcode SQLITE_BUSY = 5"
| "errcode SQLITE_LOCKED = 6"
| "errcode SQLITE_NOMEM = 7"
| "errcode SQLITE_IOERR = 10"
| "errcode SQLITE_CORRUPT = 11"
| "errcode SQLITE_FULL = 13"
| "errcode SQLITE_CANTOPEN = 14"
| "errcode SQLITE_MISUSE = 21"

text \<open>
  The plugin builds SQL text only from literals and from the table names and column
  definitions that are literals in \<open>mosquitto_auth_plugin_init\<close>. The four statements it
  can produce are:
  \<^item> \<open>PRAGMA_FOREIGN_KEYS_ON\<close>: \<^verbatim>\<open>pragma foreign_keys = on;\<close>
  \<^item> \<open>COUNT_TABLES name\<close>:
    \<^verbatim>\<open>select count(*) from sqlite_master where type='table' and name='%s';\<close>
  \<^item> \<open>CREATE_TABLE_IF_NOT_EXISTS name definition\<close>:
    \<^verbatim>\<open>create table if not exists %s (%s);\<close>
  \<^item> \<open>SELECT_HASH_SALT\<close>: \<^verbatim>\<open>select hash, salt from auth where username=?;\<close>
\<close>

datatype sql =
  PRAGMA_FOREIGN_KEYS_ON
  | COUNT_TABLES string
  | CREATE_TABLE_IF_NOT_EXISTS string string
  | SELECT_HASH_SALT

datatype sql_value = SQL_INTEGER int | SQL_TEXT string

text \<open>
  A table has the column definition it was created with and its rows; a row of \<open>auth\<close>
  is \<open>[username, hash, salt]\<close>. A database connection has the tables of the file (in
  the order of \<open>sqlite_master\<close>) and the foreign-key switch of the connection.

  Any call into the library that returns a result code can fail (busy database, I/O
  error, no memory). The field \<open>faults\<close> is the script of what is going to happen: the
  next such call takes the head of the list, fails with that error if there is one, and
  works normally if the entry is \<open>None\<close> or the script is used up. (The column
  accessors return no result code and take nothing from the script.)
\<close>

record table =
  table_definition :: string
  table_rows :: "string list list"

record sqlite3 =
  tables :: "(string \<times> table) list"
  foreign_keys :: bool
  faults :: "sqlite_fault option list"

definition next_fault :: "sqlite3 \<Rightarrow> sqlite_fault option \<times> sqlite3" where
  "next_fault db =
     (case faults db of
        [] \<Rightarrow> (None, db)
      | f # fs \<Rightarrow> (f, db\<lparr>faults := fs\<rparr>))"

text \<open>
  A prepared statement is ready (just compiled or reset), stands on a row, has run to
  its end, or has failed in its last step.
\<close>

datatype stmt_state = STMT_READY | STMT_ROW "sql_value list" | STMT_DONE | STMT_FAILED sqlite_fault

record sqlite3_stmt =
  stmt_sql :: sql
  stmt_param :: "cstring option"
  stmt_state :: stmt_state

definition table_count :: "sqlite3 \<Rightarrow> string \<Rightarrow> int" where
  "table_count db name = int (length (filter (\<lambda>(n, t). n = name) (tables db)))"

fun find_credential :: "cstring \<Rightarrow> string list list \<Rightarrow> (string \<times> string) option" where
  "find_credential u [] = None"
| "find_credential u (r # rs) =
     (case r of
        [u', h, s] \<Rightarrow> if u' = u then Some (h, s) else find_credential u rs
      | _ \<Rightarrow> find_credential u rs)"

text \<open>The row of \<open>auth\<close> for a username, if the table and the row exist.\<close>

definition stored_credential :: "sqlite3 \<Rightarrow> cstring \<Rightarrow> (string \<times> string) option" where
  "stored_credential db u =
     (case map_of (tables db) ''auth'' of
        None \<Rightarrow> None
      | Some t \<Rightarrow> find_credential u (table_rows t))"

definition sqlite3_initialize :: "sqlite3 \<Rightarrow> int \<times> sqlite3" where
  "sqlite3_initialize db =
     (case next_fault db of
        (Some f, db') \<Rightarrow> (errcode f, db')
      | (None, db') \<Rightarrow> (SQLITE_OK, db'))"

text \<open>
  \<open>sqlite3_open\<close> on the file whose content is \<open>db\<close>. Foreign keys are off on a new
  connection.
\<close>

definition sqlite3_open :: "cstring \<Rightarrow> sqlite3 \<Rightarrow> int \<times> sqlite3" where
  "sqlite3_open filename db =
     (case next_fault db of
        (Some f, db') \<Rightarrow> (errcode f, db')
      | (None, db') \<Rightarrow> (SQLITE_OK, db'\<lparr>foreign_keys := False\<rparr>))"

text \<open>
  \<open>sqlite3_prepare_v2\<close>: on an error no statement is returned (\<open>*ppStmt\<close> is \<open>NULL\<close>).
  Compiling the credential query fails if there is no table \<open>auth\<close>.
\<close>

definition sqlite3_prepare_v2 :: "sqlite3 \<Rightarrow> sql \<Rightarrow> int \<times> sqlite3_stmt option \<times> sqlite3" where
  "sqlite3_prepare_v2 db query =
     (case next_fault db of
        (Some f, db') \<Rightarrow> (errcode f, None, db')
      | (None, db') \<Rightarrow>
          if query = SELECT_HASH_SALT \<and> map_of (tables db') ''auth'' = None
          then (errcode SQLITE_ERROR, None, db')
          else (SQLITE_OK,
                Some \<lparr>stmt_sql = query, stmt_param = None, stmt_state = STMT_READY\<rparr>, db'))"

text \<open>
  What a statement does when it runs from its start: the result code, the new state of
  the statement and the new state of the database. Every query of the plugin yields at
  most one row.
\<close>

definition run_statement :: "sqlite3_stmt \<Rightarrow> sqlite3 \<Rightarrow> int \<times> sqlite3_stmt \<times> sqlite3" where
  "run_statement stmt db =
     (case stmt_sql stmt of
        PRAGMA_FOREIGN_KEYS_ON \<Rightarrow>
          (SQLITE_DONE, stmt\<lparr>stmt_state := STMT_DONE\<rparr>, db\<lparr>foreign_keys := True\<rparr>)
      | COUNT_TABLES name \<Rightarrow>
          (SQLITE_ROW, stmt\<lparr>stmt_state := STMT_ROW [SQL_INTEGER (table_count db name)]\<rparr>, db)
      | CREATE_TABLE_IF_NOT_EXISTS name definition \<Rightarrow>
          (SQLITE_DONE, stmt\<lparr>stmt_state := STMT_DONE\<rparr>,
           if map_of (tables db) name = None
           then db\<lparr>tables := tables db @
                  [(name, \<lparr>table_definition = definition, table_rows = []\<rparr>)]\<rparr>
           else db)
      | SELECT_HASH_SALT \<Rightarrow>
          (if map_of (tables db) ''auth'' = None
           then (errcode SQLITE_ERROR, stmt\<lparr>stmt_state := STMT_FAILED SQLITE_ERROR\<rparr>, db)
           else
             (case stmt_param stmt of
                None \<Rightarrow> (SQLITE_DONE, stmt\<lparr>stmt_state := STMT_DONE\<rparr>, db)
              | Some u \<Rightarrow>
                  (case stored_credential db u of
                     None \<Rightarrow> (SQLITE_DONE, stmt\<lparr>stmt_state := STMT_DONE\<rparr>, db)
                   | Some (h, s) \<Rightarrow>
                       (SQLITE_ROW,
                        stmt\<lparr>stmt_state := STMT_ROW [SQL_TEXT h, SQL_TEXT s]\<rparr>, db)))))"

text \<open>
  \<open>sqlite3_step\<close>: a statement standing on its only row runs to its end; in every other
  state it runs from its start. A failed step leaves the statement in the failed state.
\<close>

definition sqlite3_step :: "sqlite3_stmt \<Rightarrow> sqlite3 \<Rightarrow> int \<times> sqlite3_stmt \<times> sqlite3" where
  "sqlite3_step stmt db =
     (case next_fault db of
        (Some f, db') \<Rightarrow> (errcode f, stmt\<lparr>stmt_state := STMT_FAILED f\<rparr>, db')
      | (None, db') \<Rightarrow>
          (case stmt_state stmt of
             STMT_ROW vals \<Rightarrow> (SQLITE_DONE, stmt\<lparr>stmt_state := STMT_DONE\<rparr>, db')
           | _ \<Rightarrow> run_statement stmt db'))"

text \<open>
  \<open>sqlite3_column_int\<close> and \<open>sqlite3_column_text\<close> read the row the statement stands on.
  The plugin calls them only after a step that returned \<open>SQLITE_ROW\<close>, on columns that
  exist; everywhere else the model gives 0 and the empty string. The result of
  \<open>sqlite3_column_text\<close> is the stored text, which may contain NUL characters; in C it
  is a pointer to that text followed by a terminator.
\<close>

definition sqlite3_column_int :: "sqlite3_stmt \<Rightarrow> nat \<Rightarrow> int" where
  "sqlite3_column_int stmt i =
     (case stmt_state stmt of
        STMT_ROW vals \<Rightarrow>
          (if i < length vals then (case vals ! i of SQL_INTEGER n \<Rightarrow> n | SQL_TEXT t \<Rightarrow> 0) else 0)
      | _ \<Rightarrow> 0)"

definition sqlite3_column_text :: "sqlite3_stmt \<Rightarrow> nat \<Rightarrow> string" where
  "sqlite3_column_text stmt i =
     (case stmt_state stmt of
        STMT_ROW vals \<Rightarrow>
          (if i < length vals then (case vals ! i of SQL_TEXT t \<Rightarrow> t | SQL_INTEGER n \<Rightarrow> []) else [])
      | _ \<Rightarrow> [])"

text \<open>
  \<open>sqlite3_reset\<close> always puts the statement back into its ready state. It returns the
  error of the most recent step if that step failed, and otherwise \<open>SQLITE_OK\<close> unless
  the reset itself fails.
\<close>

definition sqlite3_reset :: "sqlite3_stmt \<Rightarrow> sqlite3 \<Rightarrow> int \<times> sqlite3_stmt \<times> sqlite3" where
  "sqlite3_reset stmt db =
     (case next_fault db of
        (entry, db') \<Rightarrow>
          ((case stmt_state stmt of
              STMT_FAILED f \<Rightarrow> errcode f
            | _ \<Rightarrow> (case entry of Some f \<Rightarrow> errcode f | None \<Rightarrow> SQLITE_OK)),
           stmt\<lparr>stmt_state := STMT_READY\<rparr>, db'))"

text \<open>
  \<open>sqlite3_bind_text(stmt, 1, value, -1, SQLITE_TRANSIENT)\<close>: binding a statement that
  has been stepped and not reset is a misuse.
\<close>

definition sqlite3_bind_text :: "sqlite3_stmt \<Rightarrow> cstring \<Rightarrow> sqlite3 \<Rightarrow> int \<times> sqlite3_stmt \<times> sqlite3" where
  "sqlite3_bind_text stmt val db =
     (case next_fault db of
        (Some f, db') \<Rightarrow> (errcode f, stmt, db')
      | (None, db') \<Rightarrow>
          if stmt_state stmt \<noteq> STMT_READY then (errcode SQLITE_MISUSE, stmt, db')
          else (SQLITE_OK, stmt\<lparr>stmt_param := Some val\<rparr>, db'))"

text \<open>
  \<open>sqlite3_finalize\<close> on \<open>NULL\<close> is a harmless no-op. Otherwise it destroys the statement
  and returns the error of the most recent step if that step failed.
\<close>

definition sqlite3_finalize :: "sqlite3_stmt option \<Rightarrow> sqlite3 \<Rightarrow> int \<times> sqlite3" where
  "sqlite3_finalize stmt db =
     (case stmt of
        None \<Rightarrow> (SQLITE_OK, db)
      | Some st \<Rightarrow>
          (case next_fault db of
             (entry, db') \<Rightarrow>
               ((case stmt_state st of
                   STMT_FAILED f \<Rightarrow> errcode f
                 | _ \<Rightarrow> (case entry of Some f \<Rightarrow> errcode f | None \<Rightarrow> SQLITE_OK)),
                db')))"


subsection \<open>Running SQL: \<open>sql_exec_void\<close>, \<open>sql_exec_single_int\<close>, \<open>create_table\<close>\<close>

text \<open>
  \<open>sql_exec_void\<close> prepares, steps once and finalizes. (If \<open>sqlite3_prepare_v2\<close> returned
  \<open>SQLITE_OK\<close> without a statement, \<open>sqlite3_step(NULL)\<close> would report a misuse.)
\<close>

definition sql_exec_void :: "sqlite3 \<Rightarrow> sql \<Rightarrow> int \<times> sqlite3" where
  "sql_exec_void db query =
     (case sqlite3_prepare_v2 db query of
        (retval, statement, db1) \<Rightarrow>
          if retval \<noteq> SQLITE_OK then
            (case sqlite3_finalize statement db1 of (r, db2) \<Rightarrow> (retval, db2))
          else
            (case statement of
               None \<Rightarrow> (errcode SQLITE_MISUSE, db1)
             | Some st \<Rightarrow>
                 (case sqlite3_step st db1 of
                    (retval, st2, db2) \<Rightarrow>
                      if retval \<noteq> SQLITE_DONE \<and> retval \<noteq> SQLITE_ROW then
                        (case sqlite3_finalize (Some st2) db2 of (r, db3) \<Rightarrow> (retval, db3))
                      else
                        (case sqlite3_finalize (Some st2) db2 of
                           (retval, db3) \<Rightarrow>
                             if retval \<noteq> SQLITE_OK then (retval, db3)
                             else (SQLITE_OK, db3)))))"

text \<open>
  \<open>sql_exec_single_int\<close> also returns what it stored through \<open>result\<close>: \<open>None\<close> when it
  returned before the assignment \<open>*result = sqlite3_column_int(statement, 0)\<close>.
\<close>

definition sql_exec_single_int :: "sqlite3 \<Rightarrow> sql \<Rightarrow> int \<times> int option \<times> sqlite3" where
  "sql_exec_single_int db query =
     (case sqlite3_prepare_v2 db query of
        (retval, statement, db1) \<Rightarrow>
          if retval \<noteq> SQLITE_OK then
            (case sqlite3_finalize statement db1 of (r, db2) \<Rightarrow> (retval, None, db2))
          else
            (case statement of
               None \<Rightarrow> (errcode SQLITE_MISUSE, None, db1)
             | Some st \<Rightarrow>
                 (case sqlite3_step st db1 of
                    (retval, st2, db2) \<Rightarrow>
                      if retval \<noteq> SQLITE_ROW then
                        (case sqlite3_finalize (Some st2) db2 of (r, db3) \<Rightarrow> (retval, None, db3))
                      else
                        (let result = sqlite3_column_int st2 0 in
                         case sqlite3_finalize (Some st2) db2 of
                           (retval, db3) \<Rightarrow>
                             if retval \<noteq> SQLITE_OK then (retval, Some result, db3)
                             else (SQLITE_OK, Some result, db3)))))"

text \<open>
  \<open>create_table\<close> asks \<open>sqlite_master\<close> whether the table is there, and creates it if the
  count is 0. The local \<open>count\<close> is read only after \<open>sql_exec_single_int\<close> returned
  \<open>SQLITE_OK\<close>, when it has been assigned.
\<close>

definition create_table :: "sqlite3 \<Rightarrow> string \<Rightarrow> string \<Rightarrow> int \<times> sqlite3" where
  "create_table db name definition =
     (case sql_exec_single_int db (COUNT_TABLES name) of
        (retval, count, db1) \<Rightarrow>
          if retval \<noteq> SQLITE_OK then (retval, db1)
          else if count = Some 0 then
            (case sql_exec_void db1 (CREATE_TABLE_IF_NOT_EXISTS name definition) of
               (retval, db2) \<Rightarrow>
                 if retval \<noteq> SQLITE_OK then (retval, db2)
                 else (SUCCESS, db2))
          else (NOTREQUIRED, db1))"

subsection \<open>Credential lookup: \<open>retrieve_password\<close>\<close>

text \<open>
  The caller's buffers \<open>hash\<close> and \<open>salt\<close> are passed in and returned; \<open>None\<close> is a buffer
  that has not been written, \<open>Some s\<close> a buffer that holds the C string \<open>s\<close>. The
  result is the return code, the two buffers, and the statement and the connection as
  the call leaves them.
\<close>

definition retrieve_password ::
  "sqlite3_stmt \<Rightarrow> sqlite3 \<Rightarrow> cstring \<Rightarrow> cstring option \<Rightarrow> nat \<Rightarrow> cstring option \<Rightarrow> nat
     \<Rightarrow> int \<times> cstring option \<times> cstring option \<times> sqlite3_stmt \<times> sqlite3" where
  "retrieve_password passquery db username hash hashlen salt saltlen =
     (case sqlite3_reset passquery db of
        (retval, q1, db1) \<Rightarrow>
          if retval \<noteq> SQLITE_OK then (retval, hash, salt, q1, db1)
          else
            (case sqlite3_bind_text q1 username db1 of
               (retval, q2, db2) \<Rightarrow>
                 if retval \<noteq> SQLITE_OK then (retval, hash, salt, q2, db2)
                 else
                   (case sqlite3_step q2 db2 of
                      (retval, q3, db3) \<Rightarrow>
                        if retval = SQLITE_DONE then
                          (case sqlite3_reset q3 db3 of
                             (retval, q4, db4) \<Rightarrow>
                               if retval \<noteq> SQLITE_OK then (retval, Some [], Some [], q4, db4)
                               else (SQLITE_OK, Some [], Some [], q4, db4))
                        else if retval = SQLITE_ROW then
                          (let hash' = strncpy_terminated (sqlite3_column_text q3 0) hashlen;
                               salt' = strncpy_terminated (sqlite3_column_text q3 1) saltlen
                           in case sqlite3_reset q3 db3 of
                                (retval, q4, db4) \<Rightarrow>
                                  if retval \<noteq> SQLITE_OK then (retval, Some hash', Some salt', q4, db4)
                                  else (SQLITE_OK, Some hash', Some salt', q4, db4))
                        else (retval, hash, salt, q3, db3))))"

subsection \<open>The plugin context and \<open>mosquitto_auth_plugin_init\<close>\<close>

record Context =
  db :: sqlite3
  passquery :: sqlite3_stmt
  superuser :: "cstring option"
  guestsecret :: "cstring option"

text \<open>
  The loop over \<open>auth_opts\<close>: it picks up \<open>db_file\<close>, \<open>superuser\<close> and \<open>guest_secret\<close>; a
  later occurrence of a key replaces an earlier one, other keys are ignored. The state
  is \<open>(dbfile, superuser, guestsecret)\<close>.
\<close>

fun read_auth_opts ::
  "(cstring \<times> cstring) list \<Rightarrow> cstring option \<times> cstring option \<times> cstring option
     \<Rightarrow> cstring option \<times> cstring option \<times> cstring option" where
  "read_auth_opts [] acc = acc"
| "read_auth_opts ((key, val) # opts) (dbfile, su, gs) =
     (if strcmp key ''db_file'' = 0 then read_auth_opts opts (Some val, su, gs)
      else if strcmp key ''superuser'' = 0 then read_auth_opts opts (dbfile, Some val, gs)
      else if strcmp key ''guest_secret'' = 0 then read_auth_opts opts (dbfile, su, Some val)
      else read_auth_opts opts (dbfile, su, gs))"

datatype log_level = MOSQ_LOG_INFO | MOSQ_LOG_NOTICE | MOSQ_LOG_WARNING | MOSQ_LOG_ERR

definition profile_definition :: string where
  "profile_definition =
     ''username text not null primary key,'' @
     ''displayname text not null unique,'' @
     ''type text not null,'' @
     ''connected text not null,'' @
     ''status text not null''"

definition auth_definition :: string where
  "auth_definition =
     ''username text not null primary key references profile on delete cascade,'' @
     ''hash text not null,'' @
     ''salt text not null''"

definition schedule_definition :: string where
  "schedule_definition =
     ''id integer not null primary key,'' @
     ''username text not null references profile on delete cascade,'' @
     ''command text not null,'' @
     ''fuzzy int not null,'' @
     ''recurrent int not null,'' @
     ''firedate int not null,'' @
     ''weekday int not null,'' @
     ''hours int not null,'' @
     ''minutes int not null''"

text \<open>
  The three calls of \<open>create_table\<close> in \<open>mosquitto_auth_plugin_init\<close>, in their order:
  \<open>profretvalue\<close>, \<open>authretvalue\<close>, \<open>schedretvalue\<close> and the connection afterwards.
\<close>

definition create_tables :: "sqlite3 \<Rightarrow> int \<times> int \<times> int \<times> sqlite3" where
  "create_tables db0 =
     (case create_table db0 ''profile'' profile_definition of
        (profretvalue, db1) \<Rightarrow>
     (case create_table db1 ''auth'' auth_definition of
        (authretvalue, db2) \<Rightarrow>
     (case create_table db2 ''schedule'' schedule_definition of
        (schedretvalue, db3) \<Rightarrow> (profretvalue, authretvalue, schedretvalue, db3))))"

text \<open>
  \<open>mosquitto_auth_plugin_init\<close>, given the options and the database the file named by
  \<open>db_file\<close> holds. It returns its return code, the context it leaves in \<open>*user_data\<close>
  (none when it failed and freed it), the database as it is afterwards, and what it
  logged. Closing the connection on the failure paths does not change the database.
\<close>

definition mosquitto_auth_plugin_init ::
  "(cstring \<times> cstring) list \<Rightarrow> sqlite3
     \<Rightarrow> int \<times> Context option \<times> sqlite3 \<times> (log_level \<times> string) list" where
  "mosquitto_auth_plugin_init auth_opts store =
     (case read_auth_opts auth_opts (None, None, None) of
        (dbfile, su, gs) \<Rightarrow>
     (case sqlite3_initialize store of
        (r0, s0) \<Rightarrow>
          if r0 \<noteq> SQLITE_OK then
            (FAILED_SQLITE, None, s0, [(MOSQ_LOG_ERR, ''Failed to initialize SQLite3.'')])
          else
     (case dbfile of
        None \<Rightarrow>
          (NO_DB_FILE_SPECIFIED, None, s0,
           [(MOSQ_LOG_ERR,
             ''No SQLite database specified. Check your '' @
             ''Mosquitto configuration file; it should '' @
             ''include an appropriate auth_opt_db_file variable.'')])
      | Some file \<Rightarrow>
     (case sqlite3_open file s0 of
        (r1, db1) \<Rightarrow>
          if r1 \<noteq> SQLITE_OK then
            (DB_FILE_CANTOPEN, None, db1, [(MOSQ_LOG_ERR, ''Failed to open SQLite database.'')])
          else
     (case sql_exec_void db1 PRAGMA_FOREIGN_KEYS_ON of
        (r2, db2) \<Rightarrow>
          if r2 \<noteq> SQLITE_OK then
            (DB_ERROR, None, db2, [(MOSQ_LOG_ERR, ''Failed to enable foreign keys.'')])
          else
     (case create_tables db2 of
        (profretvalue, authretvalue, schedretvalue, db3) \<Rightarrow>
          let error =
                ((profretvalue \<noteq> SUCCESS \<and> profretvalue \<noteq> NOTREQUIRED)
                 \<or> (authretvalue \<noteq> SUCCESS \<and> authretvalue \<noteq> NOTREQUIRED)
                 \<or> (schedretvalue \<noteq> SUCCESS \<and> schedretvalue \<noteq> NOTREQUIRED));
              tables_log =
                (if profretvalue = SUCCESS \<and> authretvalue = SUCCESS \<and> schedretvalue = SUCCESS
                 then [(MOSQ_LOG_NOTICE, ''Uninitialized database. Creating from scratch.'')]
                 else if profretvalue = NOTREQUIRED \<and> authretvalue = NOTREQUIRED
                         \<and> schedretvalue = NOTREQUIRED
                 then []
                 else [(MOSQ_LOG_NOTICE,
                        ''Incomplete database. Patching (but foreign keys may be wrong).'')])
          in
          if error then
            (DB_ERROR, None, db3, [(MOSQ_LOG_ERR, ''Failed to create tables.'')])
          else
     (case sqlite3_prepare_v2 db3 SELECT_HASH_SALT of
        (r3, query, db4) \<Rightarrow>
          if r3 \<noteq> SQLITE_OK then
            (case sqlite3_finalize query db4 of
               (r, db5) \<Rightarrow>
                 (DB_ERROR, None, db5,
                  tables_log @
                  [(MOSQ_LOG_ERR, ''Failed to compile password prepared statement.'')]))
          else
            (case query of
               None \<Rightarrow>
                 (DB_ERROR, None, db4,
                  tables_log @
                  [(MOSQ_LOG_ERR, ''Failed to compile password prepared statement.'')])
             | Some q \<Rightarrow>
                 (SUCCESS,
                  Some \<lparr>db = db4, passquery = q, superuser = su, guestsecret = gs\<rparr>,
                  db4,
                  tables_log @
                  [(MOSQ_LOG_INFO,
                    ''AutoHome authorization plugin initialized successfully'')])))))))))"

subsection \<open>Access control: \<open>mosquitto_auth_acl_check\<close>\<close>

text \<open>
  The loop \<open>for (i = 0; i < namelen; i++) if (username[i] != topic[i]) return DENIED\<close>.
  It returns the verdict of an early return, if any, and the final value of \<open>i\<close>, which
  the caller uses to index the topic. (\<open>i\<close> is an \<open>int\<close> compared with a \<open>size_t\<close>; names
  are far shorter than \<open>INT_MAX\<close>, an MQTT string has at most 65535 bytes.)
\<close>

function acl_name_loop :: "nat \<Rightarrow> nat \<Rightarrow> cstring \<Rightarrow> cstring \<Rightarrow> mosq_err option \<times> nat" where
  "acl_name_loop i namelen username topic =
     (if i < namelen then
        (if username ! i \<noteq> topic ! i then (Some MOSQ_ERR_ACL_DENIED, i)
         else acl_name_loop (i + 1) namelen username topic)
      else (None, i))"
  by pat_completeness auto
termination
  by (relation "measure (\<lambda>(i, namelen, username, topic). namelen - i)") auto

declare acl_name_loop.simps [simp del]

text \<open>
  \<open>topic\<close> is never \<open>NULL\<close> (the broker passes the topic of the packet at hand), and
  \<open>access\<close> is not looked at.
\<close>

definition mosquitto_auth_acl_check ::
  "Context \<Rightarrow> cstring option \<Rightarrow> cstring option \<Rightarrow> cstring \<Rightarrow> int \<Rightarrow> mosq_err" where
  "mosquitto_auth_acl_check context clientid username topic access =
     (case clientid of
        None \<Rightarrow> MOSQ_ERR_ACL_DENIED
      | Some cid \<Rightarrow>
     (case username of
        None \<Rightarrow> MOSQ_ERR_ACL_DENIED
      | Some uname \<Rightarrow>
          if superuser context \<noteq> None \<and> strcmp (the (superuser context)) uname = 0
          then MOSQ_ERR_SUCCESS
          else if strcmp cid uname \<noteq> 0 then MOSQ_ERR_ACL_DENIED
          else
            let namelen = strlen uname; topiclen = strlen topic in
            if topiclen < namelen + 2 then MOSQ_ERR_ACL_DENIED
            else
              (case acl_name_loop 0 namelen uname topic of
                 (Some verdict, i) \<Rightarrow> verdict
               | (None, i) \<Rightarrow>
                   if topic ! i \<noteq> CHR ''/'' then MOSQ_ERR_ACL_DENIED else MOSQ_ERR_SUCCESS)))"


subsection \<open>SHA-256 (the \<open>sha2\<close> library)\<close>

text \<open>
  Modelled from the spec: the hash function, SHA-256. It comes from a library
  (\<open>sha2.h\<close>) that is not among the sources. This is SHA-256 as FIPS 180-4 defines it,
  on bytes and 32-bit words represented as natural numbers, with the reduction modulo
  \<open>2 ^ 32\<close> written out.
\<close>

type_synonym byte = nat

definition K256 :: "nat list" where
  "K256 = [
  0x428a2f98, 0x71374491, 0xb5c0fbcf, 0xe9b5dba5, 0x3956c25b, 0x59f111f1, 0x923f82a4, 0xab1c5ed5,
  0xd807aa98, 0x12835b01, 0x243185be, 0x550c7dc3, 0x72be5d74, 0x80deb1fe, 0x9bdc06a7, 0xc19bf174,
  0xe49b69c1, 0xefbe4786, 0x0fc19dc6, 0x240ca1cc, 0x2de92c6f, 0x4a7484aa, 0x5cb0a9dc, 0x76f988da,
  0x983e5152, 0xa831c66d, 0xb00327c8, 0xbf597fc7, 0xc6e00bf3, 0xd5a79147, 0x06ca6351, 0x14292967,
  0x27b70a85, 0x2e1b2138, 0x4d2c6dfc, 0x53380d13, 0x650a7354, 0x766a0abb, 0x81c2c92e, 0x92722c85,
  0xa2bfe8a1, 0xa81a664b, 0xc24b8b70, 0xc76c51a3, 0xd192e819, 0xd6990624, 0xf40e3585, 0x106aa070,
  0x19a4c116, 0x1e376c08, 0x2748774c, 0x34b0bcb5, 0x391c0cb3, 0x4ed8aa4a, 0x5b9cca4f, 0x682e6ff3,
  0x748f82ee, 0x78a5636f, 0x84c87814, 0x8cc70208, 0x90befffa, 0xa4506ceb, 0xbef9a3f7, 0xc67178f2]"

type_synonym sha_state = "nat \<times> nat \<times> nat \<times> nat \<times> nat \<times> nat \<times> nat \<times> nat"

definition H0 :: sha_state where
  "H0 = (0x6a09e667, 0xbb67ae85, 0x3c6ef372, 0xa54ff53a,
         0x510e527f, 0x9b05688c, 0x1f83d9ab, 0x5be0cd19)"

definition add32 :: "nat \<Rightarrow> nat \<Rightarrow> nat" where
  "add32 x y = (x + y) mod 4294967296"

definition rotr :: "nat \<Rightarrow> nat \<Rightarrow> nat" where
  "rotr n x = x div 2 ^ n + (x mod 2 ^ n) * 2 ^ (32 - n)"

definition Ch :: "nat \<Rightarrow> nat \<Rightarrow> nat \<Rightarrow> nat" where
  "Ch x y z = (x AND y) XOR ((4294967295 - x) AND z)"

definition Maj :: "nat \<Rightarrow> nat \<Rightarrow> nat \<Rightarrow> nat" where
  "Maj x y z = (x AND y) XOR (x AND z) XOR (y AND z)"

definition bsig0 :: "nat \<Rightarrow> nat" where
  "bsig0 x = rotr 2 x XOR rotr 13 x XOR rotr 22 x"

definition bsig1 :: "nat \<Rightarrow> nat" where
  "bsig1 x = rotr 6 x XOR rotr 11 x XOR rotr 25 x"

definition ssig0 :: "nat \<Rightarrow> nat" where
  "ssig0 x = rotr 7 x XOR rotr 18 x XOR (x div 8)"

definition ssig1 :: "nat \<Rightarrow> nat" where
  "ssig1 x = rotr 17 x XOR rotr 19 x XOR (x div 1024)"

text \<open>Big-endian words of a block, and the bytes of a word.\<close>

fun be32 :: "byte list \<Rightarrow> nat list" where
  "be32 (a # b # c # d # r) = (a * 16777216 + b * 65536 + c * 256 + d) # be32 r"
| "be32 r = []"

definition bytes_of_u32 :: "nat \<Rightarrow> byte list" where
  "bytes_of_u32 w =
     [(w div 16777216) mod 256, (w div 65536) mod 256, (w div 256) mod 256, w mod 256]"

text \<open>
  Padding: the byte \<open>0x80\<close>, zeros up to 56 modulo 64, and the length of the message in
  bits as a 64-bit big-endian number.
\<close>

definition pad :: "byte list \<Rightarrow> byte list" where
  "pad m =
     m @ [128] @ replicate ((119 - length m mod 64) mod 64) 0 @
     [(8 * length m div 72057594037927936) mod 256, (8 * length m div 281474976710656) mod 256,
      (8 * length m div 1099511627776) mod 256, (8 * length m div 4294967296) mod 256,
      (8 * length m div 16777216) mod 256, (8 * length m div 65536) mod 256,
      (8 * length m div 256) mod 256, (8 * length m) mod 256]"

definition T1 :: "nat \<Rightarrow> nat \<Rightarrow> nat \<Rightarrow> nat \<Rightarrow> nat \<Rightarrow> nat \<Rightarrow> nat" where
  "T1 h e f g k w = add32 (add32 (add32 (add32 h (bsig1 e)) (Ch e f g)) k) w"

definition T2 :: "nat \<Rightarrow> nat \<Rightarrow> nat \<Rightarrow> nat" where
  "T2 a b c = add32 (bsig0 a) (Maj a b c)"

fun shift_in :: "nat \<Rightarrow> nat \<Rightarrow> sha_state \<Rightarrow> sha_state" where
  "shift_in t1 t2 (a, b, c, d, e, f, g, h) = (add32 t1 t2, a, b, c, add32 d t1, e, f, g)"

fun round_step :: "nat \<Rightarrow> nat \<Rightarrow> sha_state \<Rightarrow> sha_state" where
  "round_step k w (a, b, c, d, e, f, g, h) =
     shift_in (T1 h e f g k w) (T2 a b c) (a, b, c, d, e, f, g, h)"

text \<open>
  The message schedule is kept as a window of the last sixteen words, oldest first:
  round \<open>t\<close> uses \<open>W\<^sub>t\<close> at its head while \<open>W\<^sub>t\<^sub>+\<^sub>1\<^sub>6\<close> enters at its end.
\<close>

definition next_w :: "nat list \<Rightarrow> nat" where
  "next_w w = add32 (add32 (add32 (ssig1 (w ! 14)) (w ! 9)) (ssig0 (w ! 1))) (w ! 0)"

primrec rounds :: "nat list \<Rightarrow> nat list \<Rightarrow> sha_state \<Rightarrow> sha_state" where
  "rounds [] w s = s"
| "rounds (k # ks) w s = rounds ks (tl w @ [next_w w]) (round_step k (hd w) s)"

fun add_state :: "sha_state \<Rightarrow> sha_state \<Rightarrow> sha_state" where
  "add_state (a, b, c, d, e, f, g, h) (a', b', c', d', e', f', g', h') =
     (add32 a a', add32 b b', add32 c c', add32 d d',
      add32 e e', add32 f f', add32 g g', add32 h h')"

definition compress :: "sha_state \<Rightarrow> byte list \<Rightarrow> sha_state" where
  "compress h blk = add_state h (rounds K256 (be32 blk) h)"

function blocks :: "sha_state \<Rightarrow> byte list \<Rightarrow> sha_state" where
  "blocks h m = (if length m < 64 then h else blocks (compress h (take 64 m)) (drop 64 m))"
  by pat_completeness auto
termination
  by (relation "measure (\<lambda>(h, m). length m)") auto

declare blocks.simps [simp del]

fun digest_bytes :: "sha_state \<Rightarrow> byte list" where
  "digest_bytes (a, b, c, d, e, f, g, h) = concat (map bytes_of_u32 [a, b, c, d, e, f, g, h])"

definition SHA256 :: "byte list \<Rightarrow> byte list" where
  "SHA256 m = digest_bytes (blocks H0 (pad m))"

text \<open>
  The library's streaming interface: a context collects the message, \<open>sha256_final\<close>
  gives the 32 bytes of the digest.
\<close>

type_synonym sha256_ctx = "byte list"

definition sha256_init :: sha256_ctx where
  "sha256_init = []"

definition sha256_update :: "sha256_ctx \<Rightarrow> byte list \<Rightarrow> nat \<Rightarrow> sha256_ctx" where
  "sha256_update ctx message len = ctx @ take len message"

definition sha256_final :: "sha256_ctx \<Rightarrow> byte list" where
  "sha256_final ctx = SHA256 ctx"

subsection \<open>Password check: \<open>mosquitto_auth_unpwd_check\<close>\<close>

text \<open>The bytes of a C string, as the cast to \<open>unsigned char*\<close> reads them.\<close>

definition bytes :: "cstring \<Rightarrow> byte list" where
  "bytes s = map of_char s"

text \<open>
  \<open>char byte = clienthash[i]\<close> used in \<open>byte & 0x0f\<close> and \<open>byte >> 4\<close> is promoted to
  \<open>int\<close>. Plain \<open>char\<close> is taken as signed, as on x86; \<open>>>\<close> on a negative \<open>int\<close> is the
  arithmetic shift. (With an unsigned \<open>char\<close> the two digits are the same, see
  \<open>digits_signed\<close> below.)
\<close>

definition char_to_int :: "char \<Rightarrow> int" where
  "char_to_int c = (if (of_char c :: int) \<ge> 128 then of_char c - 256 else of_char c)"

definition digit :: "char list" where
  "digit = ''0123456789abcdef'' @ [CHR 0x00]"

text \<open>
  The buffer \<open>char clienthash[65]\<close> is a list of cells; \<open>None\<close> is a cell that has not
  been written. The loop \<open>for (int i = 31, k = 63; i >= 0; i--, k -= 2)\<close> encodes the
  digest in place, from its last byte to its first.
\<close>

function base16_loop :: "int \<Rightarrow> int \<Rightarrow> char option list \<Rightarrow> fault + char option list" where
  "base16_loop i k clienthash =
     (if i \<ge> 0 then
        (case clienthash ! nat i of
           None \<Rightarrow> Inl UNINITIALISED_READ
         | Some byte \<Rightarrow>
             base16_loop (i - 1) (k - 2)
               (clienthash[nat k := Some (digit ! nat (char_to_int byte AND 0x0f)),
                           nat (k - 1) := Some (digit ! nat (drop_bit 4 (char_to_int byte) AND 0x0f))]))
      else Inr clienthash)"
  by pat_completeness auto
termination
  by (relation "measure (\<lambda>(i, k, clienthash). nat (i + 1))") auto

declare base16_loop.simps [simp del]

text \<open>The C string a buffer holds: its cells up to the first NUL.\<close>

fun buffer_string :: "char option list \<Rightarrow> fault + cstring" where
  "buffer_string [] = Inl UNTERMINATED_STRING"
| "buffer_string (None # cs) = Inl UNINITIALISED_READ"
| "buffer_string (Some c # cs) =
     (if c = CHR 0x00 then Inr []
      else (case buffer_string cs of Inl f \<Rightarrow> Inl f | Inr s \<Rightarrow> Inr (c # s)))"

text \<open>
  \<open>sha256_final(&hashctx, clienthash)\<close> writes the digest to the front of the buffer.
\<close>

definition write_digest :: "byte list \<Rightarrow> char option list \<Rightarrow> char option list" where
  "write_digest d buf = map (\<lambda>b. Some (char_of b)) d @ drop (length d) buf"

text \<open>
  The function returns what the C function returns, or the fault it runs into, and the
  context with the statement and the connection as the lookup left them.
\<close>

definition mosquitto_auth_unpwd_check ::
  "Context \<Rightarrow> cstring option \<Rightarrow> cstring option \<Rightarrow> (fault + mosq_err) \<times> Context" where
  "mosquitto_auth_unpwd_check context username password =
     (case username of
        None \<Rightarrow> (Inr MOSQ_ERR_AUTH, context)
      | Some uname \<Rightarrow>
     (case retrieve_password (passquery context) (db context) uname None 65 None 65 of
        (retval, hash, salt, q, d) \<Rightarrow>
          let context' = context\<lparr>db := d, passquery := q\<rparr> in
          if retval \<noteq> 0 then (Inr MOSQ_ERR_UNKNOWN, context')
          else
     (case hash of
        None \<Rightarrow> (Inl UNINITIALISED_READ, context')
      | Some hash \<Rightarrow>
          if strlen hash = 0 then
            (Inr (if (guestsecret context = None \<and> password = None)
                     \<or> (guestsecret context \<noteq> None \<and> password \<noteq> None
                         \<and> strcmp (the (guestsecret context)) (the password) = 0)
                  then MOSQ_ERR_SUCCESS else MOSQ_ERR_AUTH),
             context')
          else
     (case salt of
        None \<Rightarrow> (Inl UNINITIALISED_READ, context')
      | Some salt \<Rightarrow>
     (case password of
        None \<Rightarrow> (Inl NULL_DEREFERENCE, context')
      | Some pw \<Rightarrow>
          let hashctx = sha256_init;
              hashctx = sha256_update hashctx (bytes salt) (strlen salt);
              hashctx = sha256_update hashctx (bytes pw) (strlen pw);
              clienthash = write_digest (sha256_final hashctx) (replicate 65 None)
          in
          (case base16_loop 31 63 clienthash of
             Inl f \<Rightarrow> (Inl f, context')
           | Inr clienthash \<Rightarrow>
               (case buffer_string (clienthash[64 := Some (CHR 0x00)]) of
                  Inl f \<Rightarrow> (Inl f, context')
                | Inr clientstring \<Rightarrow>
                    (Inr (if strcmp clientstring hash = 0 then MOSQ_ERR_SUCCESS
                          else MOSQ_ERR_AUTH),
                     context'))))))))"

subsection \<open>The state the broker calls the checks in\<close>

text \<open>
  After a successful \<open>mosquitto_auth_plugin_init\<close> the context holds the compiled
  credential query and a connection to a database that has the table \<open>auth\<close>. The
  predicate also says that the last step of the query, if there was one, did not fail.
\<close>

definition lookup_ready :: "Context \<Rightarrow> bool" where
  "lookup_ready context \<longleftrightarrow>
     stmt_sql (passquery context) = SELECT_HASH_SALT
     \<and> (case stmt_state (passquery context) of STMT_FAILED f \<Rightarrow> False | _ \<Rightarrow> True)
     \<and> map_of (tables (db context)) ''auth'' \<noteq> None"

text \<open>
  The lowercase hexadecimal encoding of a sequence of bytes, two digits per byte, as the
  specification of the stored hash has it.
\<close>

definition hex_digit :: "nat \<Rightarrow> char" where
  "hex_digit n = ''0123456789abcdef'' ! n"

definition hex_lower :: "byte list \<Rightarrow> string" where
  "hex_lower bs = concat (map (\<lambda>b. [hex_digit (b div 16), hex_digit (b mod 16)]) bs)"

text \<open>The character at position \<open>j\<close> of the encoding.\<close>

definition hex_at :: "byte list \<Rightarrow> nat \<Rightarrow> char" where
  "hex_at d j = (if even j then hex_digit (d ! (j div 2) div 16) else hex_digit (d ! (j div 2) mod 16))"

subsection \<open>A database and a context to run the functions on\<close>

text \<open>
  One registered user, \<open>lamp\<close>, whose password is \<open>hunter2\<close> with salt \<open>s1\<close>; the
  superuser is \<open>admin\<close> and guests must present \<open>letmein\<close>.
\<close>

definition example_database :: sqlite3 where
  "example_database =
     \<lparr>tables =
        [(''profile'',
          \<lparr>table_definition = profile_definition,
           table_rows = [[''lamp'', ''Lamp'', ''sonoff'', ''0'', ''off'']]\<rparr>),
         (''auth'',
          \<lparr>table_definition = auth_definition,
           table_rows =
             [[''lamp'',
               ''ebd45ded486507e4a30383e322e28c6cfc1be36610b1be98d98f50ce6ae2f823'',
               ''s1'']]\<rparr>),
         (''schedule'', \<lparr>table_definition = schedule_definition, table_rows = []\<rparr>)],
      foreign_keys = True,
      faults = []\<rparr>"

text \<open>A database file without tables, and the same after the three tables were created.\<close>

definition empty_database :: sqlite3 where
  "empty_database = \<lparr>tables = [], foreign_keys = False, faults = []\<rparr>"

definition fresh_database :: sqlite3 where
  "fresh_database =
     \<lparr>tables =
        [(''profile'', \<lparr>table_definition = profile_definition, table_rows = []\<rparr>),
         (''auth'', \<lparr>table_definition = auth_definition, table_rows = []\<rparr>),
         (''schedule'', \<lparr>table_definition = schedule_definition, table_rows = []\<rparr>)],
      foreign_keys = False,
      faults = []\<rparr>"

definition example_query :: sqlite3_stmt where
  "example_query = \<lparr>stmt_sql = SELECT_HASH_SALT, stmt_param = None, stmt_state = STMT_READY\<rparr>"

definition example_context :: Context where
  "example_context =
     \<lparr>db = example_database, passquery = example_query,
      superuser = Some ''admin'', guestsecret = Some ''letmein''\<rparr>"

text \<open>
  The same with a fault script: the first two calls into the library work, the third
  (the \<open>sqlite3_step\<close> of a lookup) finds the database busy.
\<close>

definition failing_step_database :: sqlite3 where
  "failing_step_database = example_database\<lparr>faults := [None, None, Some SQLITE_BUSY]\<rparr>"

text \<open>A database with one registered user, and a context on it without superuser and guest secret.\<close>

definition single_user_database :: "string \<Rightarrow> string \<Rightarrow> string \<Rightarrow> sqlite3" where
  "single_user_database u h s =
     \<lparr>tables =
        [(''profile'',
          \<lparr>table_definition = profile_definition,
           table_rows = [[u, u, ''sonoff'', ''0'', ''off'']]\<rparr>),
         (''auth'', \<lparr>table_definition = auth_definition, table_rows = [[u, h, s]]\<rparr>),
         (''schedule'', \<lparr>table_definition = schedule_definition, table_rows = []\<rparr>)],
      foreign_keys = True,
      faults = []\<rparr>"

definition single_user_context :: "string \<Rightarrow> string \<Rightarrow> string \<Rightarrow> Context" where
  "single_user_context u h s =
     \<lparr>db = single_user_database u h s, passquery = example_query,
      superuser = None, guestsecret = None\<rparr>"

section \<open>Properties of the access control check\<close>

lemma strcmp_eq_0 [simp]: "strcmp a b = 0 \<longleftrightarrow> a = b"
  by (induction a b rule: strcmp.induct) auto

lemma acl_name_loop_agree:
  "\<forall>j. i \<le> j \<and> j < n \<longrightarrow> u ! j = t ! j \<Longrightarrow> i \<le> n \<Longrightarrow> acl_name_loop i n u t = (None, n)"
proof (induction i n u t rule: acl_name_loop.induct)
  case (1 i namelen username topic)
  show ?case
  proof (cases "i < namelen")
    case True
    with 1 show ?thesis by (subst acl_name_loop.simps) auto
  next
    case False
    with 1 show ?thesis by (subst acl_name_loop.simps) auto
  qed
qed

lemma acl_name_loop_differ:
  "i \<le> j \<Longrightarrow> j < n \<Longrightarrow> u ! j \<noteq> t ! j
     \<Longrightarrow> \<exists>k. acl_name_loop i n u t = (Some MOSQ_ERR_ACL_DENIED, k)"
proof (induction i n u t rule: acl_name_loop.induct)
  case (1 i namelen username topic)
  show ?case
  proof (cases "username ! i \<noteq> topic ! i")
    case True
    with 1 show ?thesis by (subst acl_name_loop.simps) auto
  next
    case False
    with 1 have "i \<noteq> j" by auto
    with 1 False show ?thesis by (subst acl_name_loop.simps) auto
  qed
qed

lemma take_eq_iff_nth:
  "n \<le> length t \<Longrightarrow> (take n t = u) \<longleftrightarrow> (length u = n \<and> (\<forall>j<n. u ! j = t ! j))"
  by (auto simp: list_eq_iff_nth_eq)

text \<open>
  What the check computes for a client whose id is its username and who is not the
  superuser: the topic must be at least two characters longer than the name, start with
  the name, and have \<open>/\<close> right after it.
\<close>

lemma acl_check_own:
  assumes "superuser context \<noteq> Some u"
  shows "mosquitto_auth_acl_check context (Some u) (Some u) topic access =
          (if length u + 2 \<le> length topic \<and> take (length u) topic = u
              \<and> topic ! length u = CHR ''/''
           then MOSQ_ERR_SUCCESS else MOSQ_ERR_ACL_DENIED)"
proof (cases "length u + 2 \<le> length topic")
  case False
  with assms show ?thesis
    by (auto simp: mosquitto_auth_acl_check_def strlen_def Let_def)
next
  case long: True
  show ?thesis
  proof (cases "\<forall>j<length u. u ! j = topic ! j")
    case True
    then have "acl_name_loop 0 (length u) u topic = (None, length u)"
      by (intro acl_name_loop_agree) auto
    moreover from True long have "take (length u) topic = u"
      by (subst take_eq_iff_nth) auto
    ultimately show ?thesis using assms long
      by (auto simp: mosquitto_auth_acl_check_def strlen_def Let_def)
  next
    case False
    then obtain j where j: "j < length u" "u ! j \<noteq> topic ! j" by auto
    then obtain k where "acl_name_loop 0 (length u) u topic = (Some MOSQ_ERR_ACL_DENIED, k)"
      using acl_name_loop_differ [of 0 j "length u" u topic] by auto
    moreover from False long have "take (length u) topic \<noteq> u"
      by (subst take_eq_iff_nth) auto
    ultimately show ?thesis using assms long
      by (auto simp: mosquitto_auth_acl_check_def strlen_def Let_def)
  qed
qed

text \<open>
  C3. For a username \<open>u\<close> that is not the superuser and a client id equal to \<open>u\<close>, the
  check grants a topic exactly when the topic starts with \<open>u\<close>, has \<open>/\<close> right after it
  and at least one more character; it denies every other topic. In particular
  \<open>u/x\<close> is granted, \<open>u\<close> and \<open>ux/y\<close> are denied.
\<close>

theorem acl_check_namespace_rule:
  assumes "superuser context \<noteq> Some u"
  shows "(mosquitto_auth_acl_check context (Some u) (Some u) topic access = MOSQ_ERR_SUCCESS
            \<longleftrightarrow> length u + 2 \<le> length topic \<and> take (length u) topic = u
                \<and> topic ! length u = CHR ''/'')
         \<and> (mosquitto_auth_acl_check context (Some u) (Some u) topic access = MOSQ_ERR_SUCCESS
              \<or> mosquitto_auth_acl_check context (Some u) (Some u) topic access
                  = MOSQ_ERR_ACL_DENIED)
         \<and> mosquitto_auth_acl_check context (Some u) (Some u) (u @ ''/x'') access
             = MOSQ_ERR_SUCCESS
         \<and> mosquitto_auth_acl_check context (Some u) (Some u) u access = MOSQ_ERR_ACL_DENIED
         \<and> mosquitto_auth_acl_check context (Some u) (Some u) (u @ ''x/y'') access
             = MOSQ_ERR_ACL_DENIED"
  by (simp add: acl_check_own [OF assms] nth_append)

theorem acl_check_namespace_rule_witness:
  "superuser example_context \<noteq> Some ''lamp''
   \<and> mosquitto_auth_acl_check example_context (Some ''lamp'') (Some ''lamp'') ''lamp/on'' 2
       = MOSQ_ERR_SUCCESS
   \<and> mosquitto_auth_acl_check example_context (Some ''lamp'') (Some ''lamp'') ''lamps/on'' 2
       = MOSQ_ERR_ACL_DENIED"
proof -
  have su: "superuser example_context \<noteq> Some ''lamp''"
    by (simp add: example_context_def)
  show ?thesis
    using su acl_check_namespace_rule [OF su, of "''lamp/on''" 2]
      acl_check_namespace_rule [OF su, of "''lamps/on''" 2]
    by auto
qed

text \<open>
  C4. When a superuser is configured and the username is exactly that name, the check
  grants, whatever the (present) client id and whatever the topic and the kind of access.
\<close>

theorem acl_check_superuser:
  assumes "superuser context = Some u"
  shows "mosquitto_auth_acl_check context (Some clientid) (Some u) topic access
          = MOSQ_ERR_SUCCESS"
  using assms by (simp add: mosquitto_auth_acl_check_def)

theorem acl_check_superuser_witness:
  "superuser example_context = Some ''admin''
   \<and> mosquitto_auth_acl_check example_context (Some ''anyone'') (Some ''admin'') ''any/topic'' 2
       = MOSQ_ERR_SUCCESS"
proof -
  have su: "superuser example_context = Some ''admin''"
    by (simp add: example_context_def)
  show ?thesis
    using su acl_check_superuser [OF su, of "''anyone''" "''any/topic''" 2] by simp
qed

text \<open>
  C5. The claim is that the check denies whenever the client id or the username is
  empty or absent. The code tests both pointers against \<open>NULL\<close> only. An empty client
  id with an empty username passes the identity test, and the topic \<open>/x\<close> then satisfies
  the namespace rule for the empty name; an empty client id does not stop the superuser
  either.
\<close>

theorem acl_check_empty_names_counterexample:
  "mosquitto_auth_acl_check example_context (Some '''') (Some '''') ''/x'' 1 = MOSQ_ERR_SUCCESS
   \<and> mosquitto_auth_acl_check example_context (Some '''') (Some ''admin'') ''lamp/on'' 1
       = MOSQ_ERR_SUCCESS"
proof -
  have "superuser example_context \<noteq> Some ''''"
    by (simp add: example_context_def)
  then have "mosquitto_auth_acl_check example_context (Some '''') (Some '''') ''/x'' 1
              = MOSQ_ERR_SUCCESS"
    by (simp add: acl_check_own)
  moreover have "mosquitto_auth_acl_check example_context (Some '''') (Some ''admin'')
                   ''lamp/on'' 1 = MOSQ_ERR_SUCCESS"
    by (simp add: mosquitto_auth_acl_check_def example_context_def)
  ultimately show ?thesis by simp
qed

text \<open>
  C5, amended. The check denies whenever the client id or the username is absent
  (\<open>NULL\<close>), for every topic and kind of access.
\<close>

theorem acl_check_absent_names:
  assumes "clientid = None \<or> username = None"
  shows "mosquitto_auth_acl_check context clientid username topic access = MOSQ_ERR_ACL_DENIED"
  using assms by (auto simp: mosquitto_auth_acl_check_def split: option.splits)

theorem acl_check_absent_names_witness:
  "(Some ''lamp'' = (None :: cstring option) \<or> (None :: cstring option) = None)
   \<and> mosquitto_auth_acl_check example_context (Some ''lamp'') None ''lamp/on'' 1
       = MOSQ_ERR_ACL_DENIED"
  using acl_check_absent_names [of "Some ''lamp''" None example_context "''lamp/on''" 1]
  by simp

section \<open>Properties of the schema initialisation\<close>

text \<open>
  The lemmas of this section describe runs in which no call into SQLite fails
  (\<open>faults d = []\<close>).
\<close>

lemma next_fault_none [simp]: "faults d = [] \<Longrightarrow> next_fault d = (None, d)"
  by (simp add: next_fault_def)

lemma table_count_0_iff: "table_count d name = 0 \<longleftrightarrow> map_of (tables d) name = None"
proof -
  have "filter (\<lambda>(n, t). n = name) xs = [] \<longleftrightarrow> map_of xs name = None" for xs :: "(string \<times> table) list"
    by (induction xs) auto
  then show ?thesis by (simp add: table_count_def)
qed

lemma sql_exec_single_int_count:
  "faults d = [] \<Longrightarrow>
     sql_exec_single_int d (COUNT_TABLES name) = (SQLITE_OK, Some (table_count d name), d)"
  by (simp add: sql_exec_single_int_def sqlite3_prepare_v2_def sqlite3_step_def
      run_statement_def sqlite3_finalize_def sqlite3_column_int_def
      SQLITE_OK_def SQLITE_ROW_def SQLITE_DONE_def)

lemma sql_exec_void_create:
  "faults d = [] \<Longrightarrow>
     sql_exec_void d (CREATE_TABLE_IF_NOT_EXISTS name definition) =
       (SQLITE_OK,
        if map_of (tables d) name = None
        then d\<lparr>tables := tables d @ [(name, \<lparr>table_definition = definition, table_rows = []\<rparr>)]\<rparr>
        else d)"
  by (simp add: sql_exec_void_def sqlite3_prepare_v2_def sqlite3_step_def
      run_statement_def sqlite3_finalize_def
      SQLITE_OK_def SQLITE_ROW_def SQLITE_DONE_def)

lemma create_table_no_fault:
  "faults d = [] \<Longrightarrow>
     create_table d name definition =
       (if map_of (tables d) name = None
        then (SUCCESS, d\<lparr>tables := tables d @ [(name, \<lparr>table_definition = definition, table_rows = []\<rparr>)]\<rparr>)
        else (NOTREQUIRED, d))"
  by (simp add: create_table_def sql_exec_single_int_count sql_exec_void_create
      table_count_0_iff SQLITE_OK_def)

lemma create_table_names:
  assumes "faults d = []" and "create_table d name definition = (r, d')"
  shows "faults d' = [] \<and> fst ` set (tables d') = insert name (fst ` set (tables d))"
  using assms
  by (auto simp: create_table_no_fault map_of_eq_None_iff split: if_splits)

lemma create_tables_present:
  assumes "faults d = []"
    and "{''profile'', ''auth'', ''schedule''} \<subseteq> fst ` set (tables d)"
  shows "create_tables d = (NOTREQUIRED, NOTREQUIRED, NOTREQUIRED, d)"
  using assms by (simp add: create_tables_def create_table_no_fault map_of_eq_None_iff)

lemma create_tables_result:
  assumes "faults d = []" and "create_tables d = (p, a, s, d')"
  shows "faults d' = [] \<and> {''profile'', ''auth'', ''schedule''} \<subseteq> fst ` set (tables d')"
proof -
  obtain p1 d1 where 1: "create_table d ''profile'' profile_definition = (p1, d1)"
    by (cases "create_table d ''profile'' profile_definition")
  obtain a1 d2 where 2: "create_table d1 ''auth'' auth_definition = (a1, d2)"
    by (cases "create_table d1 ''auth'' auth_definition")
  obtain s1 d3 where 3: "create_table d2 ''schedule'' schedule_definition = (s1, d3)"
    by (cases "create_table d2 ''schedule'' schedule_definition")
  note n1 = create_table_names [OF assms(1) 1]
  note n2 = create_table_names [OF conjunct1 [OF n1] 2]
  note n3 = create_table_names [OF conjunct1 [OF n2] 3]
  from assms(2) 1 2 3 have "d' = d3" by (simp add: create_tables_def)
  with n1 n2 n3 show ?thesis by auto
qed

lemma sql_exec_void_pragma:
  "faults d = [] \<Longrightarrow>
     sql_exec_void d PRAGMA_FOREIGN_KEYS_ON = (SQLITE_OK, d\<lparr>foreign_keys := True\<rparr>)"
  by (simp add: sql_exec_void_def sqlite3_prepare_v2_def sqlite3_step_def
      run_statement_def sqlite3_finalize_def
      SQLITE_OK_def SQLITE_ROW_def SQLITE_DONE_def)

lemma plugin_init_existing_tables:
  assumes "faults store = []"
    and "{''profile'', ''auth'', ''schedule''} \<subseteq> fst ` set (tables store)"
    and "read_auth_opts auth_opts (None, None, None) = (Some file, su, gs)"
  shows "mosquitto_auth_plugin_init auth_opts store =
           (SUCCESS,
            Some \<lparr>db = store\<lparr>foreign_keys := True\<rparr>,
                  passquery = \<lparr>stmt_sql = SELECT_HASH_SALT, stmt_param = None,
                               stmt_state = STMT_READY\<rparr>,
                  superuser = su, guestsecret = gs\<rparr>,
            store\<lparr>foreign_keys := True\<rparr>,
            [(MOSQ_LOG_INFO, ''AutoHome authorization plugin initialized successfully'')])"
proof -
  have t: "create_tables (store\<lparr>foreign_keys := True\<rparr>) =
             (NOTREQUIRED, NOTREQUIRED, NOTREQUIRED, store\<lparr>foreign_keys := True\<rparr>)"
    using assms(1,2) by (intro create_tables_present) simp_all
  have a: "map_of (tables store) ''auth'' \<noteq> None"
    using assms(2) by (simp add: map_of_eq_None_iff)
  show ?thesis
    using assms(1) a
    by (simp add: mosquitto_auth_plugin_init_def assms(3) sqlite3_initialize_def sqlite3_open_def
        sql_exec_void_pragma t sqlite3_prepare_v2_def
        SQLITE_OK_def SUCCESS_def NOTREQUIRED_def del: not_None_eq)
qed

lemma plugin_init_ready:
  assumes "mosquitto_auth_plugin_init auth_opts store = (SUCCESS, Some c, store', lg)"
  shows "lookup_ready c"
  using assms
  by (auto simp: mosquitto_auth_plugin_init_def lookup_ready_def sqlite3_prepare_v2_def Let_def
      SUCCESS_def FAILED_SQLITE_def NO_DB_FILE_SPECIFIED_def DB_FILE_CANTOPEN_def DB_ERROR_def
      split: prod.splits if_splits option.splits)

text \<open>
  C8. Schema initialisation is idempotent. When a first run has created the three
  tables \<open>profile\<close>, \<open>auth\<close> and \<open>schedule\<close>, a second run on the store it left reports
  \<open>NOTREQUIRED\<close> for all three and leaves the store as it is. The same holds for a
  second run on any store with the same tables, whatever rows they have got in the
  meantime: tables and rows stay as they are.
\<close>

theorem schema_init_idempotent:
  assumes "faults store = []"
    and "create_tables store = (SUCCESS, SUCCESS, SUCCESS, store1)"
    and "faults store2 = []"
    and "map fst (tables store2) = map fst (tables store1)"
  shows "create_tables store1 = (NOTREQUIRED, NOTREQUIRED, NOTREQUIRED, store1)
         \<and> create_tables store2 = (NOTREQUIRED, NOTREQUIRED, NOTREQUIRED, store2)"
proof -
  from create_tables_result [OF assms(1,2)]
  have 1: "faults store1 = []" "{''profile'', ''auth'', ''schedule''} \<subseteq> fst ` set (tables store1)"
    by simp_all
  have "fst ` set (tables store2) = fst ` set (tables store1)"
    using assms(4) by (metis list.set_map)
  with 1 have 2: "{''profile'', ''auth'', ''schedule''} \<subseteq> fst ` set (tables store2)"
    by simp
  show ?thesis
    using create_tables_present [OF 1] create_tables_present [OF assms(3) 2] by simp
qed

lemma create_tables_empty:
  "create_tables empty_database = (SUCCESS, SUCCESS, SUCCESS, fresh_database)"
  by (simp add: create_tables_def create_table_no_fault empty_database_def fresh_database_def)

theorem schema_init_idempotent_witness:
  "faults empty_database = []
   \<and> create_tables empty_database = (SUCCESS, SUCCESS, SUCCESS, fresh_database)
   \<and> faults example_database = []
   \<and> map fst (tables example_database) = map fst (tables fresh_database)
   \<and> create_tables fresh_database = (NOTREQUIRED, NOTREQUIRED, NOTREQUIRED, fresh_database)
   \<and> create_tables example_database
       = (NOTREQUIRED, NOTREQUIRED, NOTREQUIRED, example_database)"
proof -
  have 1: "faults empty_database = []" by (simp add: empty_database_def)
  have 3: "faults example_database = []" by (simp add: example_database_def)
  have 4: "map fst (tables example_database) = map fst (tables fresh_database)"
    by (simp add: example_database_def fresh_database_def)
  show ?thesis
    using 1 3 4 create_tables_empty schema_init_idempotent [OF 1 create_tables_empty 3 4]
    by simp
qed

section \<open>Properties of the credential lookup\<close>

lemma errcode_not_ok [simp]: "errcode f \<noteq> 0" "errcode f \<noteq> 100" "errcode f \<noteq> 101"
  by (cases f; simp)+

lemma retrieve_password_absent:
  assumes "lookup_ready c" "faults (db c) = []" "stored_credential (db c) u = None"
  shows "retrieve_password (passquery c) (db c) u hash hl salt sl =
           (SQLITE_OK, Some [], Some [],
            (passquery c)\<lparr>stmt_param := Some u, stmt_state := STMT_READY\<rparr>, db c)"
  using assms
  by (auto simp: retrieve_password_def lookup_ready_def sqlite3_reset_def sqlite3_bind_text_def
      sqlite3_step_def run_statement_def SQLITE_OK_def SQLITE_ROW_def SQLITE_DONE_def
      split: stmt_state.splits)

lemma retrieve_password_found:
  assumes "lookup_ready c" "faults (db c) = []" "stored_credential (db c) u = Some (h, s)"
  shows "retrieve_password (passquery c) (db c) u hash hl salt sl =
           (SQLITE_OK, Some (take (hl - 1) (c_string h)), Some (take (sl - 1) (c_string s)),
            (passquery c)\<lparr>stmt_param := Some u, stmt_state := STMT_READY\<rparr>, db c)"
  using assms
  by (auto simp: retrieve_password_def lookup_ready_def sqlite3_reset_def sqlite3_bind_text_def
      sqlite3_step_def run_statement_def SQLITE_OK_def SQLITE_ROW_def SQLITE_DONE_def
      sqlite3_column_text_def strncpy_terminated_def
      split: stmt_state.splits)

lemma take4_iff:
  "Some f \<in> set (take 4 xs) \<longleftrightarrow>
     (\<exists>r. xs = Some f # r) \<or> (\<exists>e0 r. xs = e0 # Some f # r)
     \<or> (\<exists>e0 e1 r. xs = e0 # e1 # Some f # r) \<or> (\<exists>e0 e1 e2 r. xs = e0 # e1 # e2 # Some f # r)"
proof (cases xs)
  case Nil
  then show ?thesis by simp
next
  case c0: (Cons e0 r0)
  show ?thesis
  proof (cases r0)
    case Nil
    with c0 show ?thesis by auto
  next
    case c1: (Cons e1 r1)
    show ?thesis
    proof (cases r1)
      case Nil
      with c0 c1 show ?thesis by auto
    next
      case c2: (Cons e2 r2)
      show ?thesis
      proof (cases r2)
        case Nil
        with c0 c1 c2 show ?thesis by auto
      next
        case c3: (Cons e3 r3)
        with c0 c1 c2 show ?thesis by auto
      qed
    qed
  qed
qed

lemmas sqlite_calls = sqlite3_reset_def sqlite3_bind_text_def sqlite3_step_def run_statement_def
  next_fault_def SQLITE_OK_def SQLITE_ROW_def SQLITE_DONE_def

lemma retrieve_password_fault:
  assumes "Some f \<in> set (take 4 (faults d))"
  shows "fst (retrieve_password q d u hash hl salt sl) \<noteq> SQLITE_OK"
proof -
  from assms consider
      r where "faults d = Some f # r"
    | e0 r where "faults d = e0 # Some f # r"
    | e0 e1 r where "faults d = e0 # e1 # Some f # r"
    | e0 e1 e2 r where "faults d = e0 # e1 # e2 # Some f # r"
    unfolding take4_iff by blast
  then show ?thesis
  proof cases
    case 1
    then show ?thesis
      by (auto simp: retrieve_password_def sqlite_calls split: stmt_state.splits)
  next
    case 2
    then show ?thesis
      by (auto simp: retrieve_password_def sqlite_calls split: stmt_state.splits option.splits)
  next
    case 3
    then show ?thesis
      by (auto simp: retrieve_password_def sqlite_calls split: stmt_state.splits option.splits)
  next
    case 4
    then show ?thesis
      by (auto simp: retrieve_password_def sqlite_calls split: stmt_state.splits option.splits sql.splits)
  qed
qed

lemma reset_state: "sqlite3_reset q d = (r, q', d') \<Longrightarrow> stmt_state q' = STMT_READY"
  by (auto simp: sqlite3_reset_def split: prod.splits)

lemma bind_state: "sqlite3_bind_text q v d = (r, q', d') \<Longrightarrow> stmt_state q' = stmt_state q"
  by (auto simp: sqlite3_bind_text_def split: prod.splits option.splits if_splits)

lemma step_result:
  "sqlite3_step q d = (r, q', d') \<Longrightarrow>
     r = SQLITE_DONE \<or> r = SQLITE_ROW \<or> (\<exists>f. r = errcode f \<and> stmt_state q' = STMT_FAILED f)"
  by (auto simp: sqlite3_step_def run_statement_def
      split: prod.splits option.splits if_splits stmt_state.splits sql.splits)

lemma retrieve_password_state:
  assumes "retrieve_password q d u hash hl salt sl = (rc, h, s, q', d')"
  shows "stmt_state q' = STMT_READY \<or> (\<exists>f. stmt_state q' = STMT_FAILED f \<and> rc = errcode f)"
proof -
  obtain r1 q1 d1 where 1: "sqlite3_reset q d = (r1, q1, d1)"
    by (cases "sqlite3_reset q d")
  obtain r2 q2 d2 where 2: "sqlite3_bind_text q1 u d1 = (r2, q2, d2)"
    by (cases "sqlite3_bind_text q1 u d1")
  obtain r3 q3 d3 where 3: "sqlite3_step q2 d2 = (r3, q3, d3)"
    by (cases "sqlite3_step q2 d2")
  obtain r4 q4 d4 where 4: "sqlite3_reset q3 d3 = (r4, q4, d4)"
    by (cases "sqlite3_reset q3 d3")
  note s1 = reset_state [OF 1]
  note s2 = bind_state [OF 2]
  note s3 = step_result [OF 3]
  note s4 = reset_state [OF 4]
  from assms s1 s2 s3 s4 show ?thesis
    by (auto simp: retrieve_password_def 1 2 3 4 Let_def split: if_splits)
qed

text \<open>
  C9. The claim is that every invocation of the lookup leaves the compiled query reset,
  on every outcome. \<open>retrieve_password\<close> resets the query before it returns when the
  step found a row or no row, but returns the error of a failed step at once, without
  \<open>sqlite3_reset\<close>. Here the step of a lookup for \<open>lamp\<close> finds the database busy: the
  query is left in its failed state. The next lookup, during which nothing fails, gets
  the stale error from its leading \<open>sqlite3_reset\<close> and gives up, so that the correct
  password of \<open>lamp\<close> is answered with \<open>MOSQ_ERR_UNKNOWN\<close>.
\<close>

theorem retrieve_password_failed_step_not_reset:
  "(case retrieve_password example_query failing_step_database ''lamp'' None 65 None 65 of
      (retval, hash, salt, q, d) \<Rightarrow>
        retval = errcode SQLITE_BUSY
        \<and> stmt_state q = STMT_FAILED SQLITE_BUSY
        \<and> d = example_database
        \<and> fst (retrieve_password q d ''lamp'' None 65 None 65) = errcode SQLITE_BUSY
        \<and> fst (mosquitto_auth_unpwd_check (example_context\<lparr>db := d, passquery := q\<rparr>)
                  (Some ''lamp'') (Some ''hunter2'')) = Inr MOSQ_ERR_UNKNOWN)"
  by (simp add: retrieve_password_def sqlite_calls failing_step_database_def example_database_def
      example_query_def example_context_def mosquitto_auth_unpwd_check_def)

section \<open>Properties of the password check\<close>

lemma unpwd_check_store_error:
  assumes "fst (retrieve_password (passquery c) (db c) u None 65 None 65) \<noteq> SQLITE_OK"
  shows "fst (mosquitto_auth_unpwd_check c (Some u) pw) = Inr MOSQ_ERR_UNKNOWN"
proof -
  obtain rc h s q d where r: "retrieve_password (passquery c) (db c) u None 65 None 65 = (rc, h, s, q, d)"
    by (cases "retrieve_password (passquery c) (db c) u None 65 None 65")
  with assms have "rc \<noteq> 0" by (simp add: SQLITE_OK_def)
  with r show ?thesis
    by (simp add: mosquitto_auth_unpwd_check_def Let_def)
qed

lemma unpwd_check_unregistered:
  assumes "lookup_ready c" "faults (db c) = []" "stored_credential (db c) u = None"
  shows "fst (mosquitto_auth_unpwd_check c (Some u) pw) =
           Inr (if (guestsecret c = None \<and> pw = None)
                   \<or> (\<exists>g. guestsecret c = Some g \<and> pw = Some g)
                then MOSQ_ERR_SUCCESS else MOSQ_ERR_AUTH)"
  using assms
  by (auto simp: mosquitto_auth_unpwd_check_def retrieve_password_absent SQLITE_OK_def strlen_def Let_def)

text \<open>
  A check during which no call into SQLite fails leaves the context as the next check
  needs it.
\<close>

lemma unpwd_check_keeps_ready:
  assumes "lookup_ready c" and "faults (db c) = []"
  shows "lookup_ready (snd (mosquitto_auth_unpwd_check c u pw))
         \<and> faults (db (snd (mosquitto_auth_unpwd_check c u pw))) = []"
proof (cases u)
  case None
  with assms show ?thesis by (simp add: mosquitto_auth_unpwd_check_def)
next
  case (Some uname)
  let ?q = "(passquery c)\<lparr>stmt_param := Some uname, stmt_state := STMT_READY\<rparr>"
  let ?c = "c\<lparr>db := db c, passquery := ?q\<rparr>"
  have ready: "lookup_ready ?c \<and> faults (db ?c) = []"
    using assms by (simp add: lookup_ready_def)
  have "\<exists>hash salt. retrieve_password (passquery c) (db c) uname None 65 None 65 =
          (SQLITE_OK, hash, salt, ?q, db c)"
  proof (cases "stored_credential (db c) uname")
    case None
    from retrieve_password_absent [OF assms None] show ?thesis by simp
  next
    case (Some cred)
    then obtain h s where "stored_credential (db c) uname = Some (h, s)" by (cases cred) simp
    from retrieve_password_found [OF assms this] show ?thesis by simp
  qed
  then obtain hash salt where
    r: "retrieve_password (passquery c) (db c) uname None 65 None 65 = (SQLITE_OK, hash, salt, ?q, db c)"
    by blast
  have "snd (mosquitto_auth_unpwd_check c (Some uname) pw) = ?c"
    by (simp add: mosquitto_auth_unpwd_check_def r Let_def SQLITE_OK_def
        split: option.splits sum.splits)
  with ready Some show ?thesis by simp
qed

lemma example_ready:
  "lookup_ready example_context" "faults (db example_context) = []"
  by (simp_all add: lookup_ready_def example_context_def example_query_def example_database_def)

lemma example_credentials:
  "stored_credential (db example_context) ''visitor'' = None"
  "stored_credential (db example_context) ''lamp'' =
     Some (''ebd45ded486507e4a30383e322e28c6cfc1be36610b1be98d98f50ce6ae2f823'', ''s1'')"
  by (simp_all add: stored_credential_def example_context_def example_database_def)

text \<open>
  C2. For a username without a stored credential, when no call into SQLite fails, the
  check grants exactly when either no guest secret is configured and no password is
  supplied, or a guest secret is configured and the supplied password is equal to it;
  in every other case it denies.
\<close>

theorem unpwd_check_guest:
  assumes "lookup_ready c" and "faults (db c) = []" and "stored_credential (db c) u = None"
  shows "(fst (mosquitto_auth_unpwd_check c (Some u) pw) = Inr MOSQ_ERR_SUCCESS
            \<longleftrightarrow> (guestsecret c = None \<and> pw = None)
                \<or> (\<exists>g. guestsecret c = Some g \<and> pw = Some g))
         \<and> (fst (mosquitto_auth_unpwd_check c (Some u) pw) = Inr MOSQ_ERR_SUCCESS
              \<or> fst (mosquitto_auth_unpwd_check c (Some u) pw) = Inr MOSQ_ERR_AUTH)"
  by (simp add: unpwd_check_unregistered [OF assms])

theorem unpwd_check_guest_witness:
  "lookup_ready example_context \<and> faults (db example_context) = []
   \<and> stored_credential (db example_context) ''visitor'' = None
   \<and> fst (mosquitto_auth_unpwd_check example_context (Some ''visitor'') (Some ''letmein''))
       = Inr MOSQ_ERR_SUCCESS
   \<and> fst (mosquitto_auth_unpwd_check example_context (Some ''visitor'') (Some ''letmeout''))
       = Inr MOSQ_ERR_AUTH
   \<and> fst (mosquitto_auth_unpwd_check example_context (Some ''visitor'') None)
       = Inr MOSQ_ERR_AUTH"
proof -
  have g: "guestsecret example_context = Some ''letmein''"
    by (simp add: example_context_def)
  note t = unpwd_check_guest [OF example_ready example_credentials(1)]
  show ?thesis
    using example_ready example_credentials(1) g
      t [of "Some ''letmein''"] t [of "Some ''letmeout''"] t [of None]
    by auto
qed

text \<open>
  C7. When the lookup fails with a store error, that is, when \<open>retrieve_password\<close>
  returns anything but \<open>SQLITE_OK\<close>, as it does whenever one of the (at most four) calls
  it makes into SQLite fails, the check returns \<open>MOSQ_ERR_UNKNOWN\<close>, which is neither
  the granting \<open>MOSQ_ERR_SUCCESS\<close> nor the denying \<open>MOSQ_ERR_AUTH\<close>. A username
  without a row, looked up without a failure, is never answered with
  \<open>MOSQ_ERR_UNKNOWN\<close>.
\<close>

theorem unpwd_check_store_error_indeterminate:
  "(fst (retrieve_password (passquery c) (db c) u None 65 None 65) \<noteq> SQLITE_OK
      \<longrightarrow> fst (mosquitto_auth_unpwd_check c (Some u) pw) = Inr MOSQ_ERR_UNKNOWN)
   \<and> (Some f \<in> set (take 4 (faults (db c)))
      \<longrightarrow> fst (mosquitto_auth_unpwd_check c (Some u) pw) = Inr MOSQ_ERR_UNKNOWN)
   \<and> (lookup_ready c \<and> faults (db c) = [] \<and> stored_credential (db c) u = None
      \<longrightarrow> fst (mosquitto_auth_unpwd_check c (Some u) pw) \<noteq> Inr MOSQ_ERR_UNKNOWN)
   \<and> MOSQ_ERR_UNKNOWN \<noteq> MOSQ_ERR_SUCCESS \<and> MOSQ_ERR_UNKNOWN \<noteq> MOSQ_ERR_AUTH"
  using unpwd_check_store_error [of c u pw] retrieve_password_fault [of f "db c" "passquery c" u None 65 None 65]
  by (auto simp: unpwd_check_unregistered)

theorem unpwd_check_store_error_indeterminate_witness:
  "Some SQLITE_BUSY \<in> set (take 4 (faults (db (example_context\<lparr>db := failing_step_database\<rparr>))))
   \<and> fst (retrieve_password (passquery (example_context\<lparr>db := failing_step_database\<rparr>))
            (db (example_context\<lparr>db := failing_step_database\<rparr>)) ''lamp'' None 65 None 65)
       \<noteq> SQLITE_OK
   \<and> fst (mosquitto_auth_unpwd_check (example_context\<lparr>db := failing_step_database\<rparr>)
            (Some ''lamp'') (Some ''hunter2'')) = Inr MOSQ_ERR_UNKNOWN
   \<and> lookup_ready example_context \<and> faults (db example_context) = []
   \<and> stored_credential (db example_context) ''visitor'' = None
   \<and> fst (mosquitto_auth_unpwd_check example_context (Some ''visitor'') (Some ''letmein''))
       \<noteq> Inr MOSQ_ERR_UNKNOWN"
proof -
  let ?c = "example_context\<lparr>db := failing_step_database\<rparr>"
  have f: "Some SQLITE_BUSY \<in> set (take 4 (faults (db ?c)))"
    by (simp add: failing_step_database_def)
  note t1 = unpwd_check_store_error_indeterminate
              [of ?c "''lamp''" "Some ''hunter2''" SQLITE_BUSY]
  note t2 = unpwd_check_store_error_indeterminate
              [of example_context "''visitor''" "Some ''letmein''" SQLITE_BUSY]
  have r: "fst (retrieve_password (passquery ?c) (db ?c) ''lamp'' None 65 None 65) \<noteq> SQLITE_OK"
    using f by (rule retrieve_password_fault)
  show ?thesis
    using f r t1 t2 example_ready example_credentials(1) by blast
qed

subsection \<open>The base-16 encoding of the digest\<close>

lemma and_15_int: "(x :: int) AND 15 = x mod 16"
proof -
  have "x AND mask 4 = take_bit 4 x" by (simp add: take_bit_eq_mask)
  then show ?thesis by (simp add: take_bit_eq_mod mask_eq_exp_minus_1)
qed

lemma char_to_int_nat:
  "char_to_int c = (if 128 \<le> (of_char c :: nat) then int (of_char c) - 256 else int (of_char c))"
proof -
  have "(of_char c :: int) = int (of_char c :: nat)" by (simp add: of_char_def)
  then show ?thesis by (simp add: char_to_int_def)
qed

lemma lo_arith:
  "nat ((if 128 \<le> n then int n - 256 else int n) mod 16) = n mod 16"
proof -
  have "int n - 256 = int n + (- 16) * 16" by simp
  then have "(int n - 256) mod 16 = int n mod 16" by (simp only: mod_mult_self1)
  moreover have "int n mod 16 = int (n mod 16)" by (simp add: zmod_int)
  ultimately show ?thesis by simp
qed

lemma hi_arith:
  assumes "n < 256"
  shows "nat (((if 128 \<le> n then int n - 256 else int n) div 16) mod 16) = n div 16"
proof -
  have small: "n div 16 < 16" using assms by simp
  have d: "int n div 16 = int (n div 16)" by (simp add: zdiv_int)
  have "int n - 256 = int n + (- 16) * 16" by simp
  then have "(int n - 256) div 16 = - 16 + int n div 16"
    by (simp only: div_mult_self1)
  then have "((int n - 256) div 16) mod 16 = (int (n div 16) + (- 1) * 16) mod 16"
    by (simp add: d)
  also have "\<dots> = int (n div 16) mod 16" by (simp only: mod_mult_self1)
  finally have 1: "((int n - 256) div 16) mod 16 = int (n div 16)" using small by simp
  have 2: "(int n div 16) mod 16 = int (n div 16)" using small by (simp add: d)
  show ?thesis using 1 2 by simp
qed

lemma low_digit: "nat (char_to_int c AND 0x0f) = of_char c mod 16"
  unfolding and_15_int char_to_int_nat by (rule lo_arith)

lemma high_digit: "nat (drop_bit 4 (char_to_int c) AND 0x0f) = of_char c div 16"
proof -
  have "(of_char c :: nat) < 256" by simp
  then show ?thesis
    unfolding and_15_int char_to_int_nat drop_bit_eq_div by (simp add: hi_arith)
qed

lemma digit_hex: "n < 16 \<Longrightarrow> digit ! n = hex_digit n"
  unfolding digit_def hex_digit_def
  using nth_append[of "''0123456789abcdef''" "[CHR 0x00]" n] by simp

text \<open>With an unsigned \<open>char\<close> the two digits are the same.\<close>

lemma digits_signed:
  "nat (char_to_int c AND 0x0f) = nat (of_char c AND 0x0f)"
  "nat (drop_bit 4 (char_to_int c) AND 0x0f) = nat (drop_bit 4 (of_char c) AND 0x0f)"
proof -
  have eq: "(of_char c :: int) = int (of_char c :: nat)" by (simp add: of_char_def)
  have "nat ((of_char c :: int) AND 0x0f) = of_char c mod 16"
    unfolding and_15_int eq by (simp add: nat_mod_distrib)
  then show "nat (char_to_int c AND 0x0f) = nat (of_char c AND 0x0f)"
    by (simp only: low_digit)
  have "(of_char c :: nat) div 16 < 16" by (rule less_mult_imp_div_less) simp
  then have "nat (drop_bit 4 (of_char c :: int) AND 0x0f) = of_char c div 16"
    unfolding and_15_int eq drop_bit_eq_div by (simp add: nat_div_distrib nat_mod_distrib)
  then show "nat (drop_bit 4 (char_to_int c) AND 0x0f) = nat (drop_bit 4 (of_char c) AND 0x0f)"
    by (simp only: high_digit)
qed

lemma base16_loop_step:
  assumes "buf ! n = Some c"
  shows "base16_loop (int n) (2 * int n + 1) buf =
         base16_loop (int n - 1) (2 * int n - 1)
           (buf[2 * n + 1 := Some (hex_digit (of_char c mod 16)),
                2 * n := Some (hex_digit (of_char c div 16))])"
proof -
  have lo: "(of_char c :: nat) mod 16 < 16" by simp
  have hi: "(of_char c :: nat) div 16 < 16" by (rule less_mult_imp_div_less) simp
  have k: "nat (2 * int n + 1) = 2 * n + 1" "nat (2 * int n + 1 - 1) = 2 * n"
    by simp_all
  have k2: "2 * int n + 1 - 2 = 2 * int n - 1" by simp
  show ?thesis
    using assms
    by (subst base16_loop.simps)
       (simp only: low_digit high_digit digit_hex [OF lo] digit_hex [OF hi] k k2
          nat_int of_nat_0_le_iff if_True option.case)
qed

lemma base16_loop_correct:
  assumes bytes: "\<forall>b\<in>set d. b < 256"
  shows "n \<le> length d \<Longrightarrow> 2 * n \<le> length buf
     \<Longrightarrow> (\<forall>j<n. buf ! j = Some (char_of (d ! j)))
     \<Longrightarrow> \<exists>buf'. base16_loop (int n - 1) (2 * int n - 1) buf = Inr buf'
           \<and> length buf' = length buf
           \<and> (\<forall>j<2 * n. buf' ! j = Some (hex_at d j))
           \<and> (\<forall>j\<ge>2 * n. buf' ! j = buf ! j)"
proof (induction n arbitrary: buf)
  case 0
  then show ?case by (subst base16_loop.simps) simp
next
  case (Suc n)
  let ?c = "char_of (d ! n) :: char"
  let ?buf2 = "buf[2 * n + 1 := Some (hex_digit (of_char ?c mod 16)),
                   2 * n := Some (hex_digit (of_char ?c div 16))]"
  from Suc.prems have cell: "buf ! n = Some ?c" by simp
  from Suc.prems bytes have "d ! n < 256" by simp
  then have val: "d ! n mod 256 = d ! n" by simp
  have keep: "\<forall>j<n. ?buf2 ! j = Some (char_of (d ! j))"
    using Suc.prems by simp
  from Suc.IH [of ?buf2] Suc.prems keep
  obtain buf' where r: "base16_loop (int n - 1) (2 * int n - 1) ?buf2 = Inr buf'"
    and len: "length buf' = length buf"
    and low: "\<forall>j<2 * n. buf' ! j = Some (hex_at d j)"
    and rest: "\<forall>j\<ge>2 * n. buf' ! j = ?buf2 ! j"
    by auto
  have e: "int (Suc n) - 1 = int n" "2 * int (Suc n) - 1 = 2 * int n + 1" by simp_all
  have "base16_loop (int (Suc n) - 1) (2 * int (Suc n) - 1) buf = Inr buf'"
    unfolding e base16_loop_step [OF cell] by (rule r)
  moreover have "\<forall>j<2 * Suc n. buf' ! j = Some (hex_at d j)"
  proof (intro allI impI)
    fix j assume j: "j < 2 * Suc n"
    from j have "j < 2 * n \<or> j = 2 * n \<or> j = 2 * n + 1" by arith
    then consider "j < 2 * n" | "j = 2 * n" | "j = 2 * n + 1" by blast
    then show "buf' ! j = Some (hex_at d j)"
    proof cases
      case 1
      with low show ?thesis by simp
    next
      case 2
      with rest have "buf' ! j = ?buf2 ! (2 * n)" by simp
      with 2 Suc.prems show ?thesis by (simp add: hex_at_def val)
    next
      case 3
      with rest have "buf' ! j = ?buf2 ! (2 * n + 1)" by simp
      with 3 Suc.prems show ?thesis by (simp add: hex_at_def val)
    qed
  qed
  moreover have "\<forall>j\<ge>2 * Suc n. buf' ! j = buf ! j"
    using rest by simp
  ultimately show ?case using len by blast
qed

lemma hex_digit_not_nul: "n < 16 \<Longrightarrow> hex_digit n \<noteq> CHR 0x00"
proof -
  assume "n < 16"
  then have "hex_digit n \<in> set ''0123456789abcdef''"
    unfolding hex_digit_def by (intro nth_mem) simp
  then show ?thesis by auto
qed

lemma hex_lower_nth:
  "j < 2 * length d \<Longrightarrow> hex_lower d ! j = hex_at d j"
proof (induction d arbitrary: j)
  case Nil
  then show ?case by simp
next
  case (Cons b d)
  show ?case
  proof (cases j)
    case 0
    then show ?thesis by (simp add: hex_lower_def hex_at_def)
  next
    case j1: (Suc j')
    show ?thesis
    proof (cases j')
      case 0
      with j1 show ?thesis by (simp add: hex_lower_def hex_at_def)
    next
      case (Suc j'')
      with j1 Cons.prems have "j'' < 2 * length d" by simp
      from Cons.IH [OF this] j1 Suc show ?thesis
        by (simp add: hex_lower_def hex_at_def)
    qed
  qed
qed

lemma length_hex_lower [simp]: "length (hex_lower d) = 2 * length d"
  by (induction d) (simp_all add: hex_lower_def)

lemma hex_lower_no_nul:
  "\<forall>b\<in>set d. b < 256 \<Longrightarrow> CHR 0x00 \<notin> set (hex_lower d)"
proof (induction d)
  case Nil
  then show ?case by (simp add: hex_lower_def)
next
  case (Cons b d)
  then have "b < 256" by simp
  then have d1: "b div 16 < 16" by simp
  have d2: "b mod 16 < 16" by simp
  note hex_digit_not_nul [OF d1] hex_digit_not_nul [OF d2]
  moreover have "hex_lower (b # d) = hex_digit (b div 16) # hex_digit (b mod 16) # hex_lower d"
    by (simp add: hex_lower_def)
  ultimately show ?case using Cons by auto
qed

lemma buffer_string_terminated:
  "CHR 0x00 \<notin> set s \<Longrightarrow> buffer_string (map Some s @ Some (CHR 0x00) # rest) = Inr s"
  by (induction s) auto

lemma base16_encode:
  assumes "length d = 32" and "\<forall>b\<in>set d. b < 256"
  shows "\<exists>buf. base16_loop 31 63 (write_digest d (replicate 65 None)) = Inr buf
           \<and> buffer_string (buf[64 := Some (CHR 0x00)]) = Inr (hex_lower d)"
proof -
  let ?buf0 = "write_digest d (replicate 65 None)"
  have len0: "length ?buf0 = 65" using assms(1) by (simp add: write_digest_def)
  have cells: "\<forall>j<32. ?buf0 ! j = Some (char_of (d ! j))"
    using assms(1) by (simp add: write_digest_def nth_append)
  from base16_loop_correct [OF assms(2), of 32 ?buf0] assms(1) len0 cells
  obtain buf where r: "base16_loop (int 32 - 1) (2 * int 32 - 1) ?buf0 = Inr buf"
    and len: "length buf = 65"
    and hex: "\<forall>j<64. buf ! j = Some (hex_at d j)"
    by auto
  have "take 64 buf = map Some (hex_lower d)"
    using len hex assms(1) by (auto simp: list_eq_iff_nth_eq hex_lower_nth)
  moreover have "buf[64 := Some (CHR 0x00)] = take 64 buf @ Some (CHR 0x00) # []"
    using len by (auto simp: list_eq_iff_nth_eq nth_append nth_list_update)
  ultimately have "buffer_string (buf[64 := Some (CHR 0x00)]) = Inr (hex_lower d)"
    using buffer_string_terminated [OF hex_lower_no_nul [OF assms(2)], of "[]"] by simp
  with r show ?thesis by simp
qed

lemma SHA256_length [simp]: "length (SHA256 m) = 32"
  unfolding SHA256_def
  by (cases "blocks H0 (pad m)" rule: digest_bytes.cases) (simp add: bytes_of_u32_def)

lemma SHA256_bytes: "\<forall>b\<in>set (SHA256 m). b < 256"
  unfolding SHA256_def
  by (cases "blocks H0 (pad m)" rule: digest_bytes.cases) (simp add: bytes_of_u32_def)

subsection \<open>Stored text and C strings\<close>

text \<open>
  What the lookup copies out of a stored text ends at the first NUL of the text, and
  has no NUL inside.
\<close>

lemma c_string_id: "CHR 0x00 \<notin> set s \<Longrightarrow> c_string s = s"
  by (auto simp: c_string_def takeWhile_eq_all_conv)

lemma c_string_no_nul: "CHR 0x00 \<notin> set (c_string s)"
  by (auto simp: c_string_def dest: set_takeWhileD)

lemma c_string_nth: "i < length (c_string s) \<Longrightarrow> c_string s ! i = s ! i"
  by (simp add: c_string_def takeWhile_nth)

lemma strncpy_terminated_no_nul: "CHR 0x00 \<notin> set (strncpy_terminated src n)"
  using c_string_no_nul [of src] by (auto simp: strncpy_terminated_def dest: in_set_takeD)

text \<open>
  When the lookup returns \<open>SQLITE_OK\<close>, both buffers have been written, and what they
  hold has no NUL inside, so that the length of the list is what \<open>strlen\<close> returns.
\<close>

lemma retrieve_password_buffers:
  assumes "retrieve_password q d u None hl None sl = (SQLITE_OK, hash, salt, q', d')"
  shows "\<exists>h s. hash = Some h \<and> salt = Some s
           \<and> CHR 0x00 \<notin> set h \<and> CHR 0x00 \<notin> set s"
proof -
  obtain r1 q1 d1 where 1: "sqlite3_reset q d = (r1, q1, d1)"
    by (cases "sqlite3_reset q d")
  obtain r2 q2 d2 where 2: "sqlite3_bind_text q1 u d1 = (r2, q2, d2)"
    by (cases "sqlite3_bind_text q1 u d1")
  obtain r3 q3 d3 where 3: "sqlite3_step q2 d2 = (r3, q3, d3)"
    by (cases "sqlite3_step q2 d2")
  obtain r4 q4 d4 where 4: "sqlite3_reset q3 d3 = (r4, q4, d4)"
    by (cases "sqlite3_reset q3 d3")
  from step_result [OF 3] have "r3 = SQLITE_DONE \<or> r3 = SQLITE_ROW \<or> r3 \<noteq> SQLITE_OK"
    by (auto simp: SQLITE_OK_def)
  with assms show ?thesis
    by (auto simp: retrieve_password_def 1 2 3 4 Let_def strncpy_terminated_no_nul
        split: if_splits)
qed

text \<open>
  The hashing branch, for what the lookup delivered: with a non-empty hash in the buffer
  the check compares it with the encoded digest of salt buffer and password.
\<close>

lemma unpwd_check_hashing:
  assumes "retrieve_password (passquery c) (db c) u None 65 None 65
             = (SQLITE_OK, Some hash, Some salt, q, d)"
    and "hash \<noteq> []"
  shows "fst (mosquitto_auth_unpwd_check c (Some u) (Some p)) =
           Inr (if hex_lower (SHA256 (bytes salt @ bytes p)) = hash
                then MOSQ_ERR_SUCCESS else MOSQ_ERR_AUTH)"
    and "fst (mosquitto_auth_unpwd_check c (Some u) None) = Inl NULL_DEREFERENCE"
proof -
  let ?d = "SHA256 (bytes salt @ bytes p)"
  from base16_encode [of ?d] SHA256_bytes
  obtain buf where b: "base16_loop 31 63 (write_digest ?d (replicate 65 None)) = Inr buf"
    "buffer_string (buf[64 := Some (CHR 0x00)]) = Inr (hex_lower ?d)"
    by auto
  show "fst (mosquitto_auth_unpwd_check c (Some u) (Some p)) =
           Inr (if hex_lower ?d = hash then MOSQ_ERR_SUCCESS else MOSQ_ERR_AUTH)"
    using assms(2) b
    by (simp add: mosquitto_auth_unpwd_check_def assms(1)
        SQLITE_OK_def strlen_def Let_def sha256_init_def sha256_update_def sha256_final_def bytes_def)
  show "fst (mosquitto_auth_unpwd_check c (Some u) None) = Inl NULL_DEREFERENCE"
    using assms(2)
    by (simp add: mosquitto_auth_unpwd_check_def assms(1) SQLITE_OK_def strlen_def Let_def)
qed

lemma unpwd_check_registered:
  assumes "lookup_ready c" "faults (db c) = []" "stored_credential (db c) u = Some (h, s)"
    and "c_string h \<noteq> []"
  shows "fst (mosquitto_auth_unpwd_check c (Some u) (Some p)) =
           Inr (if hex_lower (SHA256 (bytes (take 64 (c_string s)) @ bytes p))
                     = take 64 (c_string h)
                then MOSQ_ERR_SUCCESS else MOSQ_ERR_AUTH)"
    and "fst (mosquitto_auth_unpwd_check c (Some u) None) = Inl NULL_DEREFERENCE"
proof -
  have r: "retrieve_password (passquery c) (db c) u None 65 None 65 =
             (SQLITE_OK, Some (take 64 (c_string h)), Some (take 64 (c_string s)),
              (passquery c)\<lparr>stmt_param := Some u, stmt_state := STMT_READY\<rparr>, db c)"
    using retrieve_password_found [OF assms(1-3), of None 65 None 65] by simp
  have ne: "take 64 (c_string h) \<noteq> []" using assms(4) by (simp add: min_def)
  show "fst (mosquitto_auth_unpwd_check c (Some u) (Some p)) =
           Inr (if hex_lower (SHA256 (bytes (take 64 (c_string s)) @ bytes p))
                     = take 64 (c_string h)
                then MOSQ_ERR_SUCCESS else MOSQ_ERR_AUTH)"
    by (rule unpwd_check_hashing(1) [OF r ne])
  show "fst (mosquitto_auth_unpwd_check c (Some u) None) = Inl NULL_DEREFERENCE"
    by (rule unpwd_check_hashing(2) [OF r ne])
qed

text \<open>
  A stored hash that is empty as a C string, because it is empty or begins with NUL,
  sends the check into the branch for unregistered users.
\<close>

lemma unpwd_check_empty_hash:
  assumes "lookup_ready c" "faults (db c) = []" "stored_credential (db c) u = Some (h, s)"
    and "c_string h = []"
  shows "fst (mosquitto_auth_unpwd_check c (Some u) pw) =
           Inr (if (guestsecret c = None \<and> pw = None)
                   \<or> (\<exists>g. guestsecret c = Some g \<and> pw = Some g)
                then MOSQ_ERR_SUCCESS else MOSQ_ERR_AUTH)"
  using assms(4)
  by (auto simp: mosquitto_auth_unpwd_check_def retrieve_password_found [OF assms(1-3)]
      SQLITE_OK_def strlen_def Let_def)

lemma hex_digit_inj:
  assumes "m < 16" "n < 16" "hex_digit m = hex_digit n"
  shows "m = n"
proof -
  have "distinct ''0123456789abcdef''" by simp
  moreover have "m < length ''0123456789abcdef''" "n < length ''0123456789abcdef''"
    using assms by simp_all
  ultimately show ?thesis
    using assms(3) unfolding hex_digit_def by (simp only: nth_eq_iff_index_eq)
qed

lemma hex_lower_inj:
  "\<forall>b\<in>set xs. b < 256 \<Longrightarrow> \<forall>b\<in>set ys. b < 256 \<Longrightarrow> hex_lower xs = hex_lower ys \<Longrightarrow> xs = ys"
proof (induction xs arbitrary: ys)
  case Nil
  then have "length (hex_lower ys) = 0" by (metis length_hex_lower list.size(3) mult_0_right)
  then show ?case by simp
next
  case (Cons x xs)
  from Cons.prems(3) have "length (hex_lower ys) = 2 * length (x # xs)"
    by (metis length_hex_lower)
  then obtain y ys' where ys: "ys = y # ys'" by (cases ys) auto
  have c: "hex_lower (b # bs) = hex_digit (b div 16) # hex_digit (b mod 16) # hex_lower bs" for b bs
    by (simp add: hex_lower_def)
  from Cons.prems(3) ys have e: "hex_digit (x div 16) = hex_digit (y div 16)"
    "hex_digit (x mod 16) = hex_digit (y mod 16)" "hex_lower xs = hex_lower ys'"
    by (simp_all add: c)
  from Cons.prems(1,2) ys have lt: "x < 256" "y < 256" by simp_all
  then have "x div 16 < 16" "y div 16 < 16" by simp_all
  from hex_digit_inj [OF this e(1)] have d: "x div 16 = y div 16" .
  have "x mod 16 < 16" "y mod 16 < 16" by simp_all
  from hex_digit_inj [OF this e(2)] have m: "x mod 16 = y mod 16" .
  from d m have "x = y" by (metis div_mult_mod_eq)
  moreover from Cons.IH [OF _ _ e(3)] Cons.prems(1,2) ys have "xs = ys'" by simp
  ultimately show ?case using ys by simp
qed

text \<open>
  C10. For a registered username (the lookup returns a non-empty stored hash) the check
  is defined only when a password is supplied. With an absent password the code takes
  \<open>strlen(password)\<close> of a null pointer, and there is no branch that denies instead;
  with a present password the hashing branch runs without a fault and returns
  \<open>MOSQ_ERR_SUCCESS\<close> or \<open>MOSQ_ERR_AUTH\<close>. The hash is the one in the buffer after
  the lookup, the C string that \<open>strlen(hash)\<close> measures.
\<close>

theorem unpwd_check_needs_password:
  assumes "retrieve_password (passquery c) (db c) u None 65 None 65
             = (SQLITE_OK, Some hash, salt, q, d)"
    and "hash \<noteq> []"
  shows "fst (mosquitto_auth_unpwd_check c (Some u) None) = Inl NULL_DEREFERENCE
         \<and> (\<forall>p. fst (mosquitto_auth_unpwd_check c (Some u) (Some p)) = Inr MOSQ_ERR_SUCCESS
                \<or> fst (mosquitto_auth_unpwd_check c (Some u) (Some p)) = Inr MOSQ_ERR_AUTH)"
proof -
  from retrieve_password_buffers [OF assms(1)]
  obtain s where s: "salt = Some s" by auto
  note r = assms(1) [unfolded s]
  show ?thesis
    by (simp add: unpwd_check_hashing [OF r assms(2)])
qed

theorem unpwd_check_needs_password_witness:
  "retrieve_password (passquery example_context) (db example_context) ''lamp'' None 65 None 65
     = (SQLITE_OK,
        Some ''ebd45ded486507e4a30383e322e28c6cfc1be36610b1be98d98f50ce6ae2f823'',
        Some ''s1'',
        (passquery example_context)\<lparr>stmt_param := Some ''lamp'', stmt_state := STMT_READY\<rparr>,
        db example_context)
   \<and> fst (mosquitto_auth_unpwd_check example_context (Some ''lamp'') None)
       = Inl NULL_DEREFERENCE
   \<and> (fst (mosquitto_auth_unpwd_check example_context (Some ''lamp'') (Some ''guess''))
         = Inr MOSQ_ERR_SUCCESS
       \<or> fst (mosquitto_auth_unpwd_check example_context (Some ''lamp'') (Some ''guess''))
         = Inr MOSQ_ERR_AUTH)"
proof -
  have r: "retrieve_password (passquery example_context) (db example_context) ''lamp''
             None 65 None 65
     = (SQLITE_OK,
        Some ''ebd45ded486507e4a30383e322e28c6cfc1be36610b1be98d98f50ce6ae2f823'',
        Some ''s1'',
        (passquery example_context)\<lparr>stmt_param := Some ''lamp'', stmt_state := STMT_READY\<rparr>,
        db example_context)"
    using retrieve_password_found [OF example_ready example_credentials(2), of None 65 None 65]
    by (simp add: c_string_def)
  have ne: "''ebd45ded486507e4a30383e322e28c6cfc1be36610b1be98d98f50ce6ae2f823'' \<noteq> []"
    by simp
  show ?thesis
    using r unpwd_check_needs_password [OF r ne] by simp
qed

subsection \<open>SHA-256 of the example messages\<close>

text \<open>
  The digests are computed by rewriting with the definitions, one compression at a time.
\<close>

lemmas sha_eval = H0_def K256_def add32_def T1_def T2_def rotr_def Ch_def Maj_def
  bsig0_def bsig1_def ssig0_def ssig1_def next_w_def compress_def

lemma replicate_num: "replicate (numeral k) x = x # replicate (pred_numeral k) x"
  by (simp add: numeral_eq_Suc)

text \<open>The one-block example of FIPS 180-4, the message \<open>abc\<close>.\<close>

lemma compress_abc:
  "compress H0
     [97, 98, 99, 128, 0, 0, 0, 0, 0, 0, 0, 0, 0, 0, 0, 0,
      0, 0, 0, 0, 0, 0, 0, 0, 0, 0, 0, 0, 0, 0, 0, 0,
      0, 0, 0, 0, 0, 0, 0, 0, 0, 0, 0, 0, 0, 0, 0, 0,
      0, 0, 0, 0, 0, 0, 0, 0, 0, 0, 0, 0, 0, 0, 0, 24] =
   (3128432319, 2399260650, 1094795486, 1571693091, 2953011619, 2518121116, 3021012833, 4060091821)"
  by (simp add: sha_eval)

lemma hash_abc:
  "hex_lower (SHA256 (bytes ''abc'')) =
     ''ba7816bf8f01cfea414140de5dae2223b00361a396177a9cb410ff61f20015ad''"
  by (simp add: SHA256_def bytes_def pad_def replicate_num blocks.simps compress_abc
      bytes_of_u32_def hex_lower_def hex_digit_def)

lemma compress_s1_hunter2:
  "compress H0
     [115, 49, 104, 117, 110, 116, 101, 114, 50, 128, 0, 0, 0, 0, 0, 0,
      0, 0, 0, 0, 0, 0, 0, 0, 0, 0, 0, 0, 0, 0, 0, 0,
      0, 0, 0, 0, 0, 0, 0, 0, 0, 0, 0, 0, 0, 0, 0, 0,
      0, 0, 0, 0, 0, 0, 0, 0, 0, 0, 0, 0, 0, 0, 0, 72] =
   (3956563437, 1214580708, 2734916579, 585272428, 4229686118, 280084120, 3650048206, 1793259555)"
  by (simp add: sha_eval)

lemma hash_s1_hunter2:
  "hex_lower (SHA256 (bytes ''s1'' @ bytes ''hunter2'')) =
     ''ebd45ded486507e4a30383e322e28c6cfc1be36610b1be98d98f50ce6ae2f823''"
  by (simp add: SHA256_def bytes_def pad_def replicate_num blocks.simps compress_s1_hunter2
      bytes_of_u32_def hex_lower_def hex_digit_def)

lemma compress_s1_hunter3:
  "compress H0
     [115, 49, 104, 117, 110, 116, 101, 114, 51, 128, 0, 0, 0, 0, 0, 0,
      0, 0, 0, 0, 0, 0, 0, 0, 0, 0, 0, 0, 0, 0, 0, 0,
      0, 0, 0, 0, 0, 0, 0, 0, 0, 0, 0, 0, 0, 0, 0, 0,
      0, 0, 0, 0, 0, 0, 0, 0, 0, 0, 0, 0, 0, 0, 0, 72] =
   (1662828655, 1556442292, 1455342769, 3576518403, 715546100, 884179869, 2859203047, 3669145809)"
  by (simp add: sha_eval)

lemma hash_s1_hunter3:
  "hex_lower (SHA256 (bytes ''s1'' @ bytes ''hunter3'')) =
     ''631cc06f5cc56cb456bec4b1d52d57032aa65df434b3839daa6bf9e7dab2b8d1''"
  by (simp add: SHA256_def bytes_def pad_def replicate_num blocks.simps compress_s1_hunter3
      bytes_of_u32_def hex_lower_def hex_digit_def)

lemma compress_a64:
  "compress H0
     [97, 97, 97, 97, 97, 97, 97, 97, 97, 97, 97, 97, 97, 97, 97, 97,
      97, 97, 97, 97, 97, 97, 97, 97, 97, 97, 97, 97, 97, 97, 97, 97,
      97, 97, 97, 97, 97, 97, 97, 97, 97, 97, 97, 97, 97, 97, 97, 97,
      97, 97, 97, 97, 97, 97, 97, 97, 97, 97, 97, 97, 97, 97, 97, 97] =
   (3747330076, 3894281766, 4215646356, 1339297585, 2992531478, 3604257217, 2878359849, 6512230)"
  by (simp add: sha_eval)

lemma compress_a64_p:
  "compress (3747330076, 3894281766, 4215646356, 1339297585, 2992531478, 3604257217, 2878359849, 6512230)
     [112, 128, 0, 0, 0, 0, 0, 0, 0, 0, 0, 0, 0, 0, 0, 0,
      0, 0, 0, 0, 0, 0, 0, 0, 0, 0, 0, 0, 0, 0, 0, 0,
      0, 0, 0, 0, 0, 0, 0, 0, 0, 0, 0, 0, 0, 0, 0, 0,
      0, 0, 0, 0, 0, 0, 0, 0, 0, 0, 0, 0, 0, 0, 2, 8] =
   (2644168394, 414571861, 3403562329, 3901744358, 3914184125, 2405066526, 2806665822, 2598251737)"
  by (simp add: sha_eval)

lemma compress_a64_bp:
  "compress (3747330076, 3894281766, 4215646356, 1339297585, 2992531478, 3604257217, 2878359849, 6512230)
     [98, 112, 128, 0, 0, 0, 0, 0, 0, 0, 0, 0, 0, 0, 0, 0,
      0, 0, 0, 0, 0, 0, 0, 0, 0, 0, 0, 0, 0, 0, 0, 0,
      0, 0, 0, 0, 0, 0, 0, 0, 0, 0, 0, 0, 0, 0, 0, 0,
      0, 0, 0, 0, 0, 0, 0, 0, 0, 0, 0, 0, 0, 0, 2, 16] =
   (3111516084, 423919780, 1708554723, 3689791314, 3249652841, 2193939506, 2952997602, 3764154604)"
  by (simp add: sha_eval)

lemma hash_a64_p:
  "hex_lower (SHA256 (bytes (replicate 64 CHR ''a'') @ bytes ''p'')) =
     ''9d9aceca18b5dd55cade3d59e88fe4e6e94db5bd8f5a671ea74a525e9ade2cd9''"
  by (simp add: SHA256_def bytes_def pad_def replicate_num blocks.simps compress_a64 compress_a64_p
      bytes_of_u32_def hex_lower_def hex_digit_def)

lemma hash_a64b_p:
  "hex_lower (SHA256 (bytes (replicate 64 CHR ''a'' @ ''b'') @ bytes ''p'')) =
     ''b975f7b4194480a465d679e3dbedbf52c1b1c46982c4dc32b0032ae2e05c70ec''"
  by (simp add: SHA256_def bytes_def pad_def replicate_num blocks.simps compress_a64 compress_a64_bp
      bytes_of_u32_def hex_lower_def hex_digit_def)

text \<open>Two messages that differ by what follows a NUL in the salt.\<close>

lemma compress_ab_p:
  "compress H0
     [97, 98, 112, 128, 0, 0, 0, 0, 0, 0, 0, 0, 0, 0, 0, 0,
      0, 0, 0, 0, 0, 0, 0, 0, 0, 0, 0, 0, 0, 0, 0, 0,
      0, 0, 0, 0, 0, 0, 0, 0, 0, 0, 0, 0, 0, 0, 0, 0,
      0, 0, 0, 0, 0, 0, 0, 0, 0, 0, 0, 0, 0, 0, 0, 24] =
   (1563617730, 1036875732, 2818628843, 2277950528, 1243487989, 2755142580, 3230887149, 1260902530)"
  by (simp add: sha_eval)

lemma hash_ab_p:
  "hex_lower (SHA256 (bytes ''ab'' @ bytes ''p'')) =
     ''5d32e9c23dcd77d4a800dceb87c6c4404a1e1ef5a43823b4c0936ced4b27d882''"
  by (simp add: SHA256_def bytes_def pad_def replicate_num blocks.simps compress_ab_p
      bytes_of_u32_def hex_lower_def hex_digit_def)

lemma compress_ab_nul_cd_p:
  "compress H0
     [97, 98, 0, 99, 100, 112, 128, 0, 0, 0, 0, 0, 0, 0, 0, 0,
      0, 0, 0, 0, 0, 0, 0, 0, 0, 0, 0, 0, 0, 0, 0, 0,
      0, 0, 0, 0, 0, 0, 0, 0, 0, 0, 0, 0, 0, 0, 0, 0,
      0, 0, 0, 0, 0, 0, 0, 0, 0, 0, 0, 0, 0, 0, 0, 48] =
   (551997433, 736402040, 1642148192, 860500711, 1775921143, 3250473410, 154374662, 3205112959)"
  by (simp add: sha_eval)

lemma hash_ab_nul_cd_p:
  "hex_lower (SHA256 (bytes (''ab'' @ CHR 0x00 # ''cd'') @ bytes ''p'')) =
     ''20e6cff92be49a7861e13160334a32e769da67f7c1be49c209339206bf0a247f''"
  by (simp add: SHA256_def bytes_def pad_def replicate_num blocks.simps compress_ab_nul_cd_p
      bytes_of_u32_def hex_lower_def hex_digit_def)

subsection \<open>Registered users\<close>

lemma single_user_ready:
  "lookup_ready (single_user_context u h s)"
  "faults (db (single_user_context u h s)) = []"
  "stored_credential (db (single_user_context u h s)) u = Some (h, s)"
  by (simp_all add: lookup_ready_def single_user_context_def single_user_database_def
      example_query_def stored_credential_def)

lemma guest_user_ready:
  "lookup_ready (single_user_context u h s\<lparr>guestsecret := Some g\<rparr>)"
  "faults (db (single_user_context u h s\<lparr>guestsecret := Some g\<rparr>)) = []"
  "stored_credential (db (single_user_context u h s\<lparr>guestsecret := Some g\<rparr>)) u = Some (h, s)"
  by (simp_all add: lookup_ready_def single_user_context_def single_user_database_def
      example_query_def stored_credential_def)




text \<open>
  C6. The claim is that no length limit of the implementation cuts the password, the
  stored salt or the stored hash, so that a correct password is verified whatever the
  lengths. The buffers for salt and hash have 65 bytes, and \<open>strncpy\<close> stops at a NUL.
  With the salt of 65 characters from above and the hash of salt ++ \<open>p\<close> in the store,
  the lookup delivers only the first 64 characters of the salt and the correct password
  \<open>p\<close> is denied. With the salt \<open>ab\<close>, NUL, \<open>cd\<close> and the hash of salt ++ \<open>p\<close> in the
  store, the lookup delivers the salt \<open>ab\<close> and the correct password \<open>p\<close> is denied.
\<close>

theorem unpwd_check_long_salt_denied_counterexample:
  "hex_lower (SHA256 (bytes (replicate 64 CHR ''a'' @ ''b'') @ bytes ''p''))
     = ''b975f7b4194480a465d679e3dbedbf52c1b1c46982c4dc32b0032ae2e05c70ec''
   \<and> fst (snd (snd (retrieve_password example_query
         (single_user_database ''lamp''
           ''b975f7b4194480a465d679e3dbedbf52c1b1c46982c4dc32b0032ae2e05c70ec''
           (replicate 64 CHR ''a'' @ ''b''))
         ''lamp'' None 65 None 65))) = Some (replicate 64 CHR ''a'')
   \<and> fst (mosquitto_auth_unpwd_check
         (single_user_context ''lamp''
           ''b975f7b4194480a465d679e3dbedbf52c1b1c46982c4dc32b0032ae2e05c70ec''
           (replicate 64 CHR ''a'' @ ''b''))
         (Some ''lamp'') (Some ''p'')) = Inr MOSQ_ERR_AUTH
   \<and> hex_lower (SHA256 (bytes (''ab'' @ CHR 0x00 # ''cd'') @ bytes ''p''))
     = ''20e6cff92be49a7861e13160334a32e769da67f7c1be49c209339206bf0a247f''
   \<and> fst (snd (snd (retrieve_password example_query
         (single_user_database ''lamp''
           ''20e6cff92be49a7861e13160334a32e769da67f7c1be49c209339206bf0a247f''
           (''ab'' @ CHR 0x00 # ''cd''))
         ''lamp'' None 65 None 65))) = Some ''ab''
   \<and> fst (mosquitto_auth_unpwd_check
         (single_user_context ''lamp''
           ''20e6cff92be49a7861e13160334a32e769da67f7c1be49c209339206bf0a247f''
           (''ab'' @ CHR 0x00 # ''cd''))
         (Some ''lamp'') (Some ''p'')) = Inr MOSQ_ERR_AUTH"
proof -
  let ?h = "''b975f7b4194480a465d679e3dbedbf52c1b1c46982c4dc32b0032ae2e05c70ec''"
  let ?s = "replicate 64 CHR ''a'' @ ''b''"
  let ?g = "''20e6cff92be49a7861e13160334a32e769da67f7c1be49c209339206bf0a247f''"
  let ?t = "''ab'' @ CHR 0x00 # ''cd''"
  have h: "c_string ?h = ?h" by (rule c_string_id) simp
  have g: "c_string ?g = ?g" by (rule c_string_id) simp
  have ne: "c_string ?h \<noteq> []" "c_string ?g \<noteq> []" unfolding h g by simp_all
  have cut: "take 64 (c_string ?s) = replicate 64 CHR ''a''"
    by (subst c_string_id) simp_all
  have nul: "take 64 (c_string ?t) = ''ab''" by (simp add: c_string_def)
  have 1: "fst (mosquitto_auth_unpwd_check (single_user_context ''lamp'' ?h ?s)
               (Some ''lamp'') (Some ''p'')) = Inr MOSQ_ERR_AUTH"
    unfolding unpwd_check_registered(1) [OF single_user_ready ne(1)] cut hash_a64_p h
    by simp
  have 2: "fst (snd (snd (retrieve_password example_query
         (single_user_database ''lamp'' ?h ?s) ''lamp'' None 65 None 65)))
       = Some (replicate 64 CHR ''a'')"
    using retrieve_password_found [OF single_user_ready, of "''lamp''" ?h ?s None 65 None 65] cut
    by (simp add: single_user_context_def)
  have 3: "fst (mosquitto_auth_unpwd_check (single_user_context ''lamp'' ?g ?t)
               (Some ''lamp'') (Some ''p'')) = Inr MOSQ_ERR_AUTH"
    unfolding unpwd_check_registered(1) [OF single_user_ready ne(2)] nul hash_ab_p g
    by simp
  have 4: "fst (snd (snd (retrieve_password example_query
         (single_user_database ''lamp'' ?g ?t) ''lamp'' None 65 None 65)))
       = Some ''ab''"
    using retrieve_password_found [OF single_user_ready, of "''lamp''" ?g ?t None 65 None 65] nul
    by (simp add: single_user_context_def)
  from 1 2 3 4 hash_a64b_p hash_ab_nul_cd_p show ?thesis by simp
qed

text \<open>
  C6, amended. The check puts no limit on the length of the password. The lookup reads
  the stored hash and the stored salt into buffers of 65 bytes, that is, it delivers
  the first 64 characters before the first NUL of each. For a salt of at most 64
  characters without NUL a correct password, one whose stored hash is the encoding of
  SHA-256(salt ++ password), is verified whatever its length.
\<close>

theorem unpwd_check_secret_lengths:
  assumes "lookup_ready c" and "faults (db c) = []"
    and "stored_credential (db c) u = Some (h, s)"
  shows "retrieve_password (passquery c) (db c) u None 65 None 65 =
           (SQLITE_OK, Some (take 64 (c_string h)), Some (take 64 (c_string s)),
            (passquery c)\<lparr>stmt_param := Some u, stmt_state := STMT_READY\<rparr>, db c)
         \<and> (length s \<le> 64 \<and> CHR 0x00 \<notin> set s \<and> h = hex_lower (SHA256 (bytes s @ bytes p))
              \<longrightarrow> fst (mosquitto_auth_unpwd_check c (Some u) (Some p)) = Inr MOSQ_ERR_SUCCESS)"
proof -
  have "fst (mosquitto_auth_unpwd_check c (Some u) (Some p)) = Inr MOSQ_ERR_SUCCESS"
    if s: "length s \<le> 64" "CHR 0x00 \<notin> set s" and h: "h = hex_lower (SHA256 (bytes s @ bytes p))"
  proof -
    from h have len: "length h = 64" by simp
    from h have "CHR 0x00 \<notin> set h" using hex_lower_no_nul [OF SHA256_bytes] by simp
    then have ch: "c_string h = h" by (rule c_string_id)
    from len ch have ne: "c_string h \<noteq> []" by auto
    from s len h ch show ?thesis
      by (simp add: unpwd_check_registered(1) [OF assms ne] c_string_id)
  qed
  then show ?thesis
    using retrieve_password_found [OF assms, of None 65 None 65] by simp
qed

theorem unpwd_check_secret_lengths_witness:
  "lookup_ready
     (single_user_context ''lamp''
        (hex_lower (SHA256 (bytes ''s1'' @ bytes (replicate 1000 CHR ''x'')))) ''s1'')
   \<and> faults (db (single_user_context ''lamp''
        (hex_lower (SHA256 (bytes ''s1'' @ bytes (replicate 1000 CHR ''x'')))) ''s1'')) = []
   \<and> stored_credential (db (single_user_context ''lamp''
        (hex_lower (SHA256 (bytes ''s1'' @ bytes (replicate 1000 CHR ''x'')))) ''s1'')) ''lamp''
       = Some (hex_lower (SHA256 (bytes ''s1'' @ bytes (replicate 1000 CHR ''x''))), ''s1'')
   \<and> length ''s1'' \<le> 64 \<and> CHR 0x00 \<notin> set ''s1''
   \<and> fst (mosquitto_auth_unpwd_check
        (single_user_context ''lamp''
           (hex_lower (SHA256 (bytes ''s1'' @ bytes (replicate 1000 CHR ''x'')))) ''s1'')
        (Some ''lamp'') (Some (replicate 1000 CHR ''x''))) = Inr MOSQ_ERR_SUCCESS"
proof -
  let ?p = "replicate 1000 CHR ''x''"
  let ?h = "hex_lower (SHA256 (bytes ''s1'' @ bytes ?p))"
  note r = single_user_ready [of "''lamp''" ?h "''s1''"]
  have l: "length ''s1'' \<le> 64" "CHR 0x00 \<notin> set ''s1''" by simp_all
  from unpwd_check_secret_lengths [OF r, of ?p] l
  have "fst (mosquitto_auth_unpwd_check (single_user_context ''lamp'' ?h ''s1'')
              (Some ''lamp'') (Some ?p)) = Inr MOSQ_ERR_SUCCESS"
    by blast
  with r l show ?thesis by blast
qed

end
